theory Spec2Isabelle
  imports Complex_Main
begin

section \<open>Python string and path primitives\<close>

text \<open>
  Strings are \<^typ>\<open>string\<close>s, lists of characters with codes below 256; letter case
  is treated on the ASCII letters.  The helpers below follow Python's \<open>str\<close>
  methods and the POSIX flavour of \<open>pathlib\<close> that the sources use.
\<close>

definition endswith :: "string \<Rightarrow> string \<Rightarrow> bool" where
  \<comment> \<open>\<open>s.endswith(suf)\<close>\<close>
  "endswith s suf \<longleftrightarrow>
     length suf \<le> length s \<and> drop (length s - length suf) s = suf"

definition startswith :: "string \<Rightarrow> string \<Rightarrow> bool" where
  \<comment> \<open>\<open>s.startswith(pre)\<close>\<close>
  "startswith s pre \<longleftrightarrow> take (length pre) s = pre"

fun contains :: "string \<Rightarrow> string \<Rightarrow> bool" where
  \<comment> \<open>\<open>old in s\<close>\<close>
  "contains old [] = (old = [])"
| "contains old (c # cs) = (startswith (c # cs) old \<or> contains old cs)"

function str_replace :: "string \<Rightarrow> string \<Rightarrow> string \<Rightarrow> string" where
  \<comment> \<open>\<open>s.replace(old, new)\<close>: leftmost, non-overlapping occurrences\<close>
  "str_replace old new [] = (if old = [] then new else [])"
| "str_replace old new (c # cs) =
     (if old = [] then new @ c # str_replace old new cs
      else if startswith (c # cs) old
        then new @ str_replace old new (drop (length old) (c # cs))
        else c # str_replace old new cs)"
  by pat_completeness auto
termination
  by (relation "measure (\<lambda>(old, new, s). length s)") auto

definition rstrip_char :: "char \<Rightarrow> string \<Rightarrow> string" where
  \<comment> \<open>\<open>s.rstrip(c)\<close> for a single character \<open>c\<close>\<close>
  "rstrip_char c s = rev (dropWhile (\<lambda>x. x = c) (rev s))"

definition lower_char :: "char \<Rightarrow> char" where
  \<comment> \<open>\<open>A\<close>..\<open>Z\<close> are the codes 65..90\<close>
  "lower_char c =
     (let n = (of_char c :: nat) in
      if 65 \<le> n \<and> n \<le> 90 then char_of (n + 32) else c)"

definition lower :: "string \<Rightarrow> string" where
  \<comment> \<open>\<open>s.lower()\<close> on ASCII\<close>
  "lower s = map lower_char s"

fun split_on :: "char \<Rightarrow> string \<Rightarrow> string list" where
  \<comment> \<open>\<open>s.split(c)\<close>\<close>
  "split_on c [] = [[]]"
| "split_on c (x # xs) =
     (if x = c then [] # split_on c xs
      else (case split_on c xs of
              [] \<Rightarrow> [[x]]
            | y # ys \<Rightarrow> (x # y) # ys))"

definition path_parts :: "string \<Rightarrow> string list" where
  \<comment> \<open>the components of \<open>PurePosixPath(s)\<close> below the root: empty and \<open>.\<close>
      components are dropped\<close>
  "path_parts s = filter (\<lambda>p. p \<noteq> [] \<and> p \<noteq> ''.'') (split_on CHR ''/'' s)"

definition path_name :: "string \<Rightarrow> string" where
  \<comment> \<open>\<open>Path(s).name\<close>\<close>
  "path_name s = (case path_parts s of [] \<Rightarrow> [] | p # ps \<Rightarrow> last (p # ps))"

fun rfind :: "char \<Rightarrow> string \<Rightarrow> nat option" where
  \<comment> \<open>\<open>s.rfind(c)\<close>, with \<open>None\<close> for \<open>-1\<close>\<close>
  "rfind c [] = None"
| "rfind c (x # xs) =
     (case rfind c xs of
        Some i \<Rightarrow> Some (Suc i)
      | None \<Rightarrow> if x = c then Some 0 else None)"

definition name_suffix :: "string \<Rightarrow> string" where
  \<comment> \<open>\<open>PurePath.suffix\<close> computed on the final component\<close>
  "name_suffix n =
     (case rfind CHR ''.'' n of
        None \<Rightarrow> []
      | Some i \<Rightarrow> if 0 < i \<and> i < length n - 1 then drop i n else [])"

definition path_suffix :: "string \<Rightarrow> string" where
  \<comment> \<open>\<open>Path(s).suffix\<close>\<close>
  "path_suffix s = name_suffix (path_name s)"

definition path_stem :: "string \<Rightarrow> string" where
  \<comment> \<open>\<open>Path(s).stem\<close>\<close>
  "path_stem s =
     (let n = path_name s in
      case rfind CHR ''.'' n of
        None \<Rightarrow> n
      | Some i \<Rightarrow> if 0 < i \<and> i < length n - 1 then take i n else n)"

section \<open>ArchiveNormalizer: canonical names\<close>

definition dwd_prefix :: string where
  "dwd_prefix = ''grids_germany_annual_''"

definition known_suffixes :: "string list" where
  "known_suffixes = [''.asc.gz'', ''.zip'', ''.asc'', ''.tif'']"

fun strip_first_suffix :: "string list \<Rightarrow> string \<Rightarrow> string" where
  \<comment> \<open>the \<open>for suffix in (...)\<close> loop with its \<open>break\<close>\<close>
  "strip_first_suffix [] name = name"
| "strip_first_suffix (suf # sufs) name =
     (if endswith name suf then take (length name - length suf) name
      else strip_first_suffix sufs name)"

definition strip_17 :: "string \<Rightarrow> string" where
  "strip_17 name =
     (if endswith name ''_1917'' \<or> endswith name ''_2017'' then name
      else if endswith name ''17'' then take (length name - 2) name
      else name)"

definition rename_dwd_file :: "string \<Rightarrow> string" where
  "rename_dwd_file file =
     (let name = path_name file;
          name = str_replace dwd_prefix [] name;
          name = strip_first_suffix known_suffixes name;
          name = strip_17 name;
          name = rstrip_char CHR ''_'' name
      in name @ ''.asc'')"

section \<open>ArchiveNormalizer: decompression\<close>

text \<open>
  What \<open>decompress_file\<close> reads of its input: the path, the extension sniffed by
  \<open>filetype.guess\<close>, the answer of \<open>zipfile.is_zipfile\<close>, the members of the archive
  in directory order with their contents (\<open>None\<close> when \<open>zipfile.ZipFile\<close> raises
  \<open>BadZipFile\<close>) and the gzip payload (\<open>None\<close> when \<open>gzip\<close> rejects the data).
\<close>

record source_file =
  fpath :: string
  sniffed :: "string option"
  is_zipfile :: bool
  zip_members :: "(string \<times> string) list option"
  gzip_payload :: "string option"

datatype py_error =
    ValueError string
  | BadZipFile
  | BadGzipFile

datatype decompressed =
    Unchanged string
  | Written string string
  \<comment> \<open>\<open>Unchanged p\<close>: the path is returned as it is; \<open>Written n c\<close>: content \<open>c\<close> is
      written to the sibling file named \<open>n\<close>, whose path is returned\<close>

definition asc_members :: "(string \<times> string) list \<Rightarrow> string list" where
  \<comment> \<open>\<open>[m for m in zf.namelist() if m.lower().endswith(".asc")]\<close>\<close>
  "asc_members ms = filter (\<lambda>m. endswith (lower m) ''.asc'') (map fst ms)"

definition zip_read :: "(string \<times> string) list \<Rightarrow> string \<Rightarrow> string option" where
  \<comment> \<open>\<open>zf.open(name).read()\<close>: the last entry of that name is the one opened\<close>
  "zip_read ms m =
     (case filter (\<lambda>e. fst e = m) ms of
        [] \<Rightarrow> None
      | e # es \<Rightarrow> Some (snd (last (e # es))))"

definition decompress_file :: "source_file \<Rightarrow> py_error + decompressed" where
  "decompress_file f =
     (let suffix = lower (path_suffix (fpath f));
          ft_ext = sniffed f
      in if suffix \<in> {''.asc'', ''.tif''} \<or> ft_ext \<in> {Some ''asc'', Some ''tif''}
           then Inr (Unchanged (fpath f))
         else if path_name (fpath f) = []
           then Inl (ValueError ''empty name'')
         else
           let decompressed_file = rename_dwd_file (path_name (fpath f))
           in if is_zipfile f \<or> ft_ext = Some ''zip'' \<or> suffix = ''.zip''
                then (case zip_members f of
                        None \<Rightarrow> Inl BadZipFile
                      | Some ms \<Rightarrow>
                          (case asc_members ms of
                             [] \<Rightarrow> Inl (ValueError ''No .asc file found in archive.'')
                           | m # _ \<Rightarrow>
                               (case zip_read ms m of
                                  None \<Rightarrow> Inl BadZipFile
                                | Some c \<Rightarrow> Inr (Written decompressed_file c))))
              else (case gzip_payload f of
                      None \<Rightarrow> Inl BadGzipFile
                    | Some c \<Rightarrow> Inr (Written decompressed_file c)))"

section \<open>The raster folder\<close>

datatype entry_kind = RegularFile | Directory

type_synonym folder = "(string \<times> entry_kind) list"
  \<comment> \<open>the entries of one directory: name and kind\<close>

definition glob_star :: "string \<Rightarrow> folder \<Rightarrow> folder" where
  \<comment> \<open>\<open>folder.glob("*" + suf)\<close>\<close>
  "glob_star suf d = filter (\<lambda>e. endswith (fst e) suf) d"

definition unlink :: "string \<times> entry_kind \<Rightarrow> folder \<Rightarrow> folder option" where
  \<comment> \<open>\<open>file.unlink()\<close>; \<open>None\<close> is the \<open>OSError\<close> raised for a directory\<close>
  "unlink e d = (if snd e = RegularFile then Some (filter (\<lambda>x. x \<noteq> e) d) else None)"

fun unlink_each :: "(string \<times> entry_kind) list \<Rightarrow> folder \<Rightarrow> folder" where
  \<comment> \<open>the inner loop: a failing \<open>unlink\<close> is skipped\<close>
  "unlink_each [] d = d"
| "unlink_each (e # es) d =
     (case unlink e d of
        None \<Rightarrow> unlink_each es d
      | Some d' \<Rightarrow> unlink_each es d')"

fun delete_patterns :: "string list \<Rightarrow> folder \<Rightarrow> folder" where
  "delete_patterns [] d = d"
| "delete_patterns (suf # sufs) d = delete_patterns sufs (unlink_each (glob_star suf d) d)"

definition delete_raster_files :: "folder \<Rightarrow> folder" where
  "delete_raster_files d = delete_patterns [''.asc'', ''.asc.gz'', ''.zip''] d"

definition asc_to_tif_name :: "string \<Rightarrow> string" where
  \<comment> \<open>the output path of \<open>asc_to_tif_add_crs\<close>\<close>
  "asc_to_tif_name asc_input = str_replace ''.asc'' [] asc_input @ ''.tif''"

section \<open>CatalogFetcher: the materialization check\<close>

definition check_if_already_downloaded ::
  "(string \<Rightarrow> string) \<Rightarrow> string list \<Rightarrow> string list option \<Rightarrow> bool" where
  \<comment> \<open>\<open>url_path\<close> is \<open>urlparse(link).path\<close> of the standard library; the directory is
      \<open>None\<close> when it does not exist, otherwise the names of its entries\<close>
  "check_if_already_downloaded url_path raster_links raster_dir =
     (case raster_dir of
        None \<Rightarrow> False
      | Some entries \<Rightarrow>
          if entries = [] then False
          else
            let tif_names = map path_stem (filter (\<lambda>n. endswith n ''.tif'') entries)
            in if tif_names = [] then False
               else
                 let expected =
                       map (\<lambda>link. path_stem (rename_dwd_file (path_name (url_path link))))
                         raster_links
                 in list_all (\<lambda>e. e \<in> set tif_names) expected)"

section \<open>StatsAggregator: the nested table\<close>

text \<open>A Python \<open>dict\<close> keeps its keys in insertion order; assigning to a present key
  replaces the value in place.\<close>

fun dict_set :: "('k \<times> 'v) list \<Rightarrow> 'k \<Rightarrow> 'v \<Rightarrow> ('k \<times> 'v) list" where
  "dict_set [] k v = [(k, v)]"
| "dict_set ((k', v') # d) k v =
     (if k' = k then (k, v) # d else (k', v') # dict_set d k v)"

definition dict_of_pairs :: "('k \<times> 'v) list \<Rightarrow> ('k \<times> 'v) list" where
  \<comment> \<open>\<open>dict(pairs)\<close>\<close>
  "dict_of_pairs ps = foldl (\<lambda>d (k, v). dict_set d k v) [] ps"

definition split_key :: "string \<Rightarrow> string \<times> string" where
  \<comment> \<open>\<open>name = key[:-5]\<close>, \<open>year = key[-4:]\<close>\<close>
  "split_key key = (take (length key - 5) key, drop (length key - 4) key)"

type_synonym 'v stats_json = "(string \<times> (string \<times> 'v) list) list"

definition json_insert :: "'v stats_json \<Rightarrow> string \<times> 'v \<Rightarrow> 'v stats_json" where
  \<comment> \<open>one round of the loop over \<open>rasterstats_dict.items()\<close>\<close>
  "json_insert js kv =
     (let (name, year) = split_key (fst kv);
          js' = (if map_of js name = None then dict_set js name [] else js);
          inner = (case map_of js' name of None \<Rightarrow> [] | Some i \<Rightarrow> i)
      in dict_set js' name (dict_set inner year (snd kv)))"

definition rasterstats_json :: "(string \<Rightarrow> 'v) \<Rightarrow> string list \<Rightarrow> 'v stats_json" where
  \<comment> \<open>the table \<open>zonal_climate_analysis\<close> builds from \<open>files_tif\<close>; \<open>zs f\<close> is the
      result of \<open>calculate_zonal_stats\<close> on raster \<open>f\<close>\<close>
  "rasterstats_json zs files_tif =
     (let rasterstats_list = map zs files_tif;
          filenames = map path_stem files_tif;
          rasterstats_dict = dict_of_pairs (zip filenames rasterstats_list)
      in foldl json_insert [] rasterstats_dict)"

definition json_lookup :: "'v stats_json \<Rightarrow> string \<Rightarrow> string \<Rightarrow> 'v option" where
  \<comment> \<open>\<open>js[name][year]\<close>, \<open>None\<close> when a key is missing\<close>
  "json_lookup js name year =
     (case map_of js name of None \<Rightarrow> None | Some inner \<Rightarrow> map_of inner year)"

section \<open>RequestGateway: errors and configuration\<close>

datatype http_error = HTTPException nat string
  \<comment> \<open>status code and detail\<close>

definition py_isspace :: "char \<Rightarrow> bool" where
  \<comment> \<open>the characters \<open>str.strip()\<close> removes, among the code points below 256 (a
      header value is decoded as latin-1): 9 to 13, 28 to 32, 0x85 and 0xA0\<close>
  "py_isspace c \<longleftrightarrow>
     (let n = (of_char c :: nat)
      in (9 \<le> n \<and> n \<le> 13) \<or> (28 \<le> n \<and> n \<le> 32) \<or> n = 133 \<or> n = 160)"

definition py_strip :: "string \<Rightarrow> string" where
  \<comment> \<open>\<open>s.strip()\<close>\<close>
  "py_strip s = rev (dropWhile py_isspace (rev (dropWhile py_isspace s)))"

section \<open>RequestGateway: rate limiting\<close>

record request =
  forwarded :: string
  \<comment> \<open>the header \<open>x-forwarded-for\<close>, empty when absent\<close>
  client_host :: "string option"
  \<comment> \<open>\<open>request.client.host\<close>, \<open>None\<close> when \<open>request.client\<close> is missing\<close>
  req_path :: string

definition client_ip :: "request \<Rightarrow> string" where
  "client_ip r =
     (if forwarded r \<noteq> [] then py_strip (hd (split_on CHR '','' (forwarded r)))
      else (case client_host r of Some h \<Rightarrow> h | None \<Rightarrow> ''unknown''))"

type_synonym rate_table = "(int \<times> string) \<rightharpoonup> nat"
  \<comment> \<open>the dictionary \<open>_RATE_LIMIT\<close>\<close>

definition rate_key :: "int \<times> request \<Rightarrow> int \<times> string" where
  \<comment> \<open>\<open>(now // 60, _client_ip(request))\<close>, with \<open>now = int(time.time())\<close>\<close>
  "rate_key nr = (fst nr div 60, client_ip (snd nr))"

definition hits :: "rate_table \<Rightarrow> int \<times> string \<Rightarrow> nat" where
  \<comment> \<open>\<open>_RATE_LIMIT.get(key, 0)\<close>\<close>
  "hits tbl key = (case tbl key of None \<Rightarrow> 0 | Some c \<Rightarrow> c)"

datatype middleware_result = CallNext | Raise http_error
  \<comment> \<open>what the middleware does with a request: \<open>return await call_next(request)\<close>, or
      \<open>raise\<close> inside the middleware\<close>

definition rate_limit_middleware ::
  "int \<Rightarrow> rate_table \<Rightarrow> int \<times> request \<Rightarrow> middleware_result \<times> rate_table" where
  "rate_limit_middleware rate_limit_per_min tbl nr =
     (if rate_limit_per_min \<le> 0 then (CallNext, tbl)
      else
        let key = rate_key nr;
            count = hits tbl key + 1;
            tbl' = tbl(key \<mapsto> count)
        in if int count > rate_limit_per_min
             then (Raise (HTTPException 429 ''Too many requests. Please slow down.''), tbl')
             else (CallNext, tbl'))"

fun serve_all ::
  "int \<Rightarrow> rate_table \<Rightarrow> (int \<times> request) list \<Rightarrow> middleware_result list \<times> rate_table" where
  \<comment> \<open>the middleware applied to the requests in their order of arrival\<close>
  "serve_all rpm tbl [] = ([], tbl)"
| "serve_all rpm tbl (nr # nrs) =
     (let (resp, tbl') = rate_limit_middleware rpm tbl nr;
          (resps, tbl'') = serve_all rpm tbl' nrs
      in (resp # resps, tbl''))"

section \<open>RequestGateway: the analysis lock\<close>

text \<open>
  Time stamps are Python floats.  Their type \<open>'f\<close> and the three operations the
  lock code applies to them are parameters: the conversion of an \<open>int\<close> operand
  (which raises \<open>OverflowError\<close> when the integer is too large), the subtraction
  with its rounding, and the comparison of a float with an \<open>int\<close>.
\<close>

datatype 'f json = JNull | JBool bool | JInt int | JFloat 'f | JStr string | JOther

datatype 'f lock_content =
    Unreadable
  | LockDict "(string \<times> 'f json) list"
  \<comment> \<open>\<open>Unreadable\<close>: empty, not JSON, or not a JSON object\<close>

datatype server_exc = Http http_error | OverflowError
  \<comment> \<open>the exceptions that leave the lock code\<close>

record 'f lock_env =
  alive :: "int \<Rightarrow> bool"
  \<comment> \<open>whether \<open>/proc/<pid>\<close> exists\<close>
  own_pid :: int
  lock_ttl_seconds :: int
  can_unlink :: bool
  \<comment> \<open>\<open>False\<close> when \<open>LOCK_PATH.unlink()\<close> raises \<open>OSError\<close>\<close>
  can_write :: bool
  \<comment> \<open>\<open>False\<close> when \<open>LOCK_PATH.write_text\<close> raises \<open>OSError\<close>\<close>
  float_of_int :: "int \<Rightarrow> 'f option"
  \<comment> \<open>the float of an \<open>int\<close> operand, \<open>None\<close> for \<open>OverflowError\<close>\<close>
  float_sub :: "'f \<Rightarrow> 'f \<Rightarrow> 'f"
  float_lt_int :: "'f \<Rightarrow> int \<Rightarrow> bool"

record 'f server_state =
  lock_file :: "'f lock_content option"
  \<comment> \<open>\<open>None\<close> when \<open>LOCK_PATH\<close> does not exist\<close>
  pipeline_runs :: nat
  \<comment> \<open>how often the analyzer subprocess has been started\<close>
  running :: nat
  \<comment> \<open>how many analyzer subprocesses are executing\<close>

definition read_lock :: "'f server_state \<Rightarrow> (string \<times> 'f json) list option" where
  "read_lock st =
     (case lock_file st of
        None \<Rightarrow> None
      | Some Unreadable \<Rightarrow> None
      | Some (LockDict d) \<Rightarrow> Some d)"

definition dict_get :: "(string \<times> 'f json) list \<Rightarrow> string \<Rightarrow> 'f json" where
  \<comment> \<open>\<open>data.get(k)\<close>\<close>
  "dict_get d k = (case map_of d k of None \<Rightarrow> JNull | Some v \<Rightarrow> v)"

fun pid_is_alive :: "'f lock_env \<Rightarrow> 'f json \<Rightarrow> bool" where
  \<comment> \<open>\<open>isinstance(pid, int) and _pid_is_alive(pid)\<close>; for a Boolean the path
      \<open>/proc/True\<close> does not exist\<close>
  "pid_is_alive env (JInt p) = alive env p"
| "pid_is_alive env _ = False"

fun operand :: "'f lock_env \<Rightarrow> 'f json \<Rightarrow> (server_exc + 'f) option" where
  \<comment> \<open>\<open>ts\<close> as the right operand of \<open>now - ts\<close>: \<open>None\<close> unless
      \<open>isinstance(ts, (int, float))\<close>\<close>
  "operand env (JFloat x) = Some (Inr x)"
| "operand env (JInt n) =
     (case float_of_int env n of None \<Rightarrow> Some (Inl OverflowError) | Some x \<Rightarrow> Some (Inr x))"
| "operand env (JBool b) =
     (case float_of_int env (if b then 1 else 0) of
        None \<Rightarrow> Some (Inl OverflowError)
      | Some x \<Rightarrow> Some (Inr x))"
| "operand env _ = None"

definition fresh :: "'f lock_env \<Rightarrow> 'f \<Rightarrow> 'f json \<Rightarrow> server_exc + bool" where
  \<comment> \<open>\<open>isinstance(ts, (int, float)) and t - ts < LOCK_TTL_SECONDS\<close>\<close>
  "fresh env t ts =
     (case operand env ts of
        None \<Rightarrow> Inr False
      | Some (Inl e) \<Rightarrow> Inl e
      | Some (Inr x) \<Rightarrow> Inr (float_lt_int env (float_sub env t x) (lock_ttl_seconds env)))"

definition try_unlink :: "'f lock_env \<Rightarrow> 'f server_state \<Rightarrow> 'f server_state" where
  \<comment> \<open>\<open>try: LOCK_PATH.unlink() except OSError: pass\<close>\<close>
  "try_unlink env st = (if can_unlink env then st\<lparr>lock_file := None\<rparr> else st)"

definition cleanup_lock ::
  "'f lock_env \<Rightarrow> 'f \<Rightarrow> 'f server_state \<Rightarrow> server_exc + 'f server_state" where
  \<comment> \<open>\<open>t\<close> is the value of \<open>time.time()\<close> read inside\<close>
  "cleanup_lock env t st =
     (if lock_file st = None then Inr st
      else
        (case read_lock st of
           None \<Rightarrow> Inr (try_unlink env st)
         | Some d \<Rightarrow>
             if d = [] then Inr (try_unlink env st)
             else if pid_is_alive env (dict_get d ''pid'') then Inr st
             else
               (case fresh env t (dict_get d ''ts'') of
                  Inl e \<Rightarrow> Inl e
                | Inr True \<Rightarrow> Inr st
                | Inr False \<Rightarrow> Inr (try_unlink env st))))"

definition analysis_lock ::
  "'f lock_env \<Rightarrow> 'f \<Rightarrow> 'f \<Rightarrow> 'f server_state \<Rightarrow> (server_exc + unit) \<times> 'f server_state" where
  \<comment> \<open>entering the context manager: \<open>now\<close> is read first, \<open>t\<close> is read by
      \<open>_cleanup_lock\<close> afterwards\<close>
  "analysis_lock env now t st =
     (case (if lock_file st \<noteq> None then cleanup_lock env t st else Inr st) of
        Inl e \<Rightarrow> (Inl e, st)
      | Inr st1 \<Rightarrow>
          (case (if lock_file st1 \<noteq> None
                 then fresh env now
                        (case read_lock st1 of None \<Rightarrow> JNull | Some d \<Rightarrow> dict_get d ''ts'')
                 else Inr False) of
             Inl e \<Rightarrow> (Inl e, st1)
           | Inr True \<Rightarrow>
               (Inl (Http (HTTPException 429 ''Analyzer is busy. Try again soon.'')), st1)
           | Inr False \<Rightarrow>
               let st2 = (if lock_file st1 \<noteq> None then try_unlink env st1 else st1)
               in if can_write env
                    then (Inr (),
                          st2\<lparr>lock_file :=
                                Some (LockDict [(''pid'', JInt (own_pid env)),
                                                (''ts'', JFloat now)])\<rparr>)
                    else (Inl (Http (HTTPException 500 ''Unable to acquire analysis lock.'')),
                          st2)))"

definition start_analyzer ::
  "'f lock_env \<Rightarrow> 'f \<Rightarrow> 'f \<Rightarrow> 'f server_state \<Rightarrow> (server_exc + unit) \<times> 'f server_state" where
  \<comment> \<open>\<open>_run_analyzer\<close> up to the start of the subprocess inside
      \<open>with _analysis_lock():\<close>\<close>
  "start_analyzer env now t st =
     (case analysis_lock env now t st of
        (Inl e, st') \<Rightarrow> (Inl e, st')
      | (Inr u, st') \<Rightarrow>
          (Inr (), st'\<lparr>pipeline_runs := Suc (pipeline_runs st'),
                       running := Suc (running st')\<rparr>))"

definition finish_analyzer :: "'f lock_env \<Rightarrow> 'f server_state \<Rightarrow> 'f server_state" where
  \<comment> \<open>the subprocess has ended and the \<open>with\<close> block is left: the lock is removed\<close>
  "finish_analyzer env st = try_unlink env (st\<lparr>running := running st - 1\<rparr>)"

definition run_analyzer ::
  "'f lock_env \<Rightarrow> 'f \<Rightarrow> 'f \<Rightarrow> 'f server_state \<Rightarrow> (server_exc + unit) \<times> 'f server_state" where
  \<comment> \<open>the whole \<open>with _analysis_lock():\<close> block of one request\<close>
  "run_analyzer env now t st =
     (case start_analyzer env now t st of
        (Inl e, st') \<Rightarrow> (Inl e, st')
      | (Inr u, st') \<Rightarrow> (Inr (), finish_analyzer env st'))"

section \<open>RequestGateway: archive extraction\<close>

record zip_member =
  filename :: string
  file_size :: nat

definition allowed_archive_ext :: "string list" where
  "allowed_archive_ext = [''.shp'', ''.shx'', ''.dbf'', ''.prj'', ''.cpg'']"

definition is_dir :: "zip_member \<Rightarrow> bool" where
  "is_dir m = endswith (filename m) ''/''"

definition path_join :: "string \<Rightarrow> string \<Rightarrow> string" where
  \<comment> \<open>\<open>dest_dir / name\<close>: an absolute right operand replaces the left one\<close>
  "path_join d n = (if startswith n ''/'' then n else d @ ''/'' @ n)"

fun resolve_parts :: "string list \<Rightarrow> string list \<Rightarrow> string list" where
  "resolve_parts acc [] = acc"
| "resolve_parts acc (c # cs) =
     (if c = [] \<or> c = ''.'' then resolve_parts acc cs
      else if c = ''..'' then resolve_parts (butlast acc) cs
      else resolve_parts (acc @ [c]) cs)"

definition path_resolve :: "string \<Rightarrow> string" where
  \<comment> \<open>\<open>str(p.resolve())\<close> of an absolute path, in a tree without symbolic links\<close>
  "path_resolve p =
     (case resolve_parts [] (split_on CHR ''/'' p) of
        [] \<Rightarrow> ''/''
      | c # cs \<Rightarrow> concat (map (\<lambda>x. CHR ''/'' # x) (c # cs)))"

definition inside :: "string \<Rightarrow> zip_member \<Rightarrow> bool" where
  \<comment> \<open>\<open>str(target.resolve()).startswith(str(dest_dir.resolve()))\<close>\<close>
  "inside dest_dir m =
     startswith (path_resolve (path_join dest_dir (filename m))) (path_resolve dest_dir)"

fun check_members :: "string \<Rightarrow> zip_member list \<Rightarrow> http_error option" where
  \<comment> \<open>the loop over the members; \<open>None\<close> when it ends without raising\<close>
  "check_members dest_dir [] = None"
| "check_members dest_dir (m # ms) =
     (if \<not> inside dest_dir m then Some (HTTPException 400 ''Invalid zip contents.'')
      else if is_dir m then check_members dest_dir ms
      else
        let ext = lower (path_suffix (filename m))
        in if ext \<noteq> [] \<and> ext \<notin> set allowed_archive_ext
             then Some (HTTPException 400 ''Zip contains unsupported file types.'')
             else check_members dest_dir ms)"

definition extractall :: "string \<Rightarrow> zip_member list \<Rightarrow> string list \<Rightarrow> string list" where
  \<comment> \<open>\<open>zip_ref.extractall(dest_dir)\<close>: every member is written below \<open>dest_dir\<close>,
      \<open>zipfile\<close> dropping the empty, \<open>.\<close> and \<open>..\<close> components of its name; the file
      system is the list of the paths written\<close>
  "extractall dest_dir ms fs =
     fs @ map (\<lambda>m. dest_dir @ concat (map (\<lambda>x. CHR ''/'' # x)
                 (filter (\<lambda>c. c \<noteq> [] \<and> c \<noteq> ''.'' \<and> c \<noteq> ''..'')
                    (split_on CHR ''/'' (filename m))))) ms"

definition safe_extract_zip ::
  "int \<Rightarrow> int \<Rightarrow> zip_member list \<Rightarrow> string \<Rightarrow> string list
     \<Rightarrow> (http_error + unit) \<times> string list" where
  "safe_extract_zip max_zip_files max_zip_uncompressed_bytes members dest_dir fs =
     (if int (length members) > max_zip_files
        then (Inl (HTTPException 400 ''Zip file contains too many entries.''), fs)
      else
        let total_uncompressed = sum_list (map file_size members)
        in if int total_uncompressed > max_zip_uncompressed_bytes
             then (Inl (HTTPException 400 ''Zip file is too large to extract.''), fs)
           else
             (case check_members dest_dir members of
                Some e \<Rightarrow> (Inl e, fs)
              | None \<Rightarrow> (Inr (), extractall dest_dir members fs)))"

section \<open>RequestGateway: geometry limits\<close>

type_synonym coords = "(real \<times> real) list"

datatype geom =
    Point
  | MultiPoint
  | LineString coords
  | LinearRing coords
  | MultiLineString "coords list"
  | Polygon coords "coords list"
  | MultiPolygon "geom list"
  | GeometryCollection "geom list"
  \<comment> \<open>\<open>Polygon e is\<close>: exterior ring and interior rings\<close>

fun geom_type :: "geom \<Rightarrow> string" where
  "geom_type Point = ''Point''"
| "geom_type MultiPoint = ''MultiPoint''"
| "geom_type (LineString _) = ''LineString''"
| "geom_type (LinearRing _) = ''LinearRing''"
| "geom_type (MultiLineString _) = ''MultiLineString''"
| "geom_type (Polygon _ _) = ''Polygon''"
| "geom_type (MultiPolygon _) = ''MultiPolygon''"
| "geom_type (GeometryCollection _) = ''GeometryCollection''"

fun count_geom :: "geom \<Rightarrow> nat" where
  "count_geom (Polygon e is) = sum_list (map length (e # is))"
| "count_geom (MultiPolygon gs) = sum_list (map count_geom gs)"
| "count_geom _ = 0"

definition count_vertices :: "geom option \<Rightarrow> nat" where
  \<comment> \<open>\<open>_count_vertices\<close>; \<open>None\<close> is a missing geometry\<close>
  "count_vertices g = (case g of None \<Rightarrow> 0 | Some x \<Rightarrow> count_geom x)"

definition validate_geo_limits :: "int \<Rightarrow> int \<Rightarrow> geom option list \<Rightarrow> http_error + unit" where
  \<comment> \<open>the frame is the list of its geometries\<close>
  "validate_geo_limits max_features max_vertices gdf =
     (if int (length gdf) > max_features
        then Inl (HTTPException 400 ''Too many features in upload.'')
      else
        let vertex_count = sum_list (map count_vertices gdf)
        in if int vertex_count > max_vertices
             then Inl (HTTPException 400 ''Geometry is too complex.'')
             else Inr ())"

section \<open>RequestGateway: the request handlers\<close>

datatype outcome = Done | Raises http_error | Crashes
  \<comment> \<open>how one step ends: it returns, raises an \<open>HTTPException\<close>, or raises another
      \<open>Exception\<close>\<close>

record steps =
  ensure_disk_space :: outcome
  write_upload :: outcome
  clamscan_upload :: outcome
  extract_zip :: outcome
  \<comment> \<open>\<open>zipfile.ZipFile\<close> and \<open>_safe_extract_zip\<close>; \<open>BadZipFile\<close> is raised again as
      \<open>HTTPException(400)\<close>\<close>
  clamscan_dir :: outcome
  load_vector :: outcome
  geo_limits :: outcome
  set_crs :: outcome
  within_coverage :: outcome
  to_file :: outcome
  find_shapefile :: outcome
  validate_shapefile :: outcome
  polygon_check :: outcome
  analyzer :: outcome

fun first_failure :: "outcome list \<Rightarrow> outcome" where
  \<comment> \<open>a sequence of statements stops at the first one that raises\<close>
  "first_failure [] = Done"
| "first_failure (Done # os) = first_failure os"
| "first_failure (x # os) = x"

definition allowed_ext :: "string list" where
  "allowed_ext = [''.zip'', ''.shp'', ''.gpkg'', ''.geojson'']"

definition cleanup_run_dir :: "string \<Rightarrow> string list \<Rightarrow> string list" where
  \<comment> \<open>\<open>shutil.rmtree(run_dir, ignore_errors=True)\<close> on the list of run directories\<close>
  "cleanup_run_dir run_dir dirs = filter (\<lambda>d. d \<noteq> run_dir) dirs"

definition guarded ::
  "outcome list \<Rightarrow> string \<Rightarrow> string list \<Rightarrow> (http_error + string) \<times> string list" where
  \<comment> \<open>the \<open>try\<close> block with its two \<open>except\<close> clauses; the result is the error
      raised to the client or the run identifier returned\<close>
  "guarded body run_id dirs =
     (case first_failure body of
        Done \<Rightarrow> (Inr run_id, dirs)
      | Raises e \<Rightarrow> (Inl e, cleanup_run_dir run_id dirs)
      | Crashes \<Rightarrow>
          (Inl (HTTPException 500 ''Unexpected server error.''), cleanup_run_dir run_id dirs))"

definition analyze_body :: "steps \<Rightarrow> string \<Rightarrow> outcome list" where
  \<comment> \<open>the statements of the \<open>try\<close> block of \<open>analyze\<close>, for the extension \<open>ext\<close>\<close>
  "analyze_body s ext =
     [write_upload s, clamscan_upload s]
     @ (if ext = ''.zip'' then [extract_zip s, clamscan_dir s] else [])
     @ (if ext = ''.gpkg'' \<or> ext = ''.geojson''
          then [load_vector s, geo_limits s, set_crs s, within_coverage s, to_file s]
          else [find_shapefile s, validate_shapefile s, load_vector s, geo_limits s,
                within_coverage s])
     @ [analyzer s]"

definition analyze ::
  "steps \<Rightarrow> string \<Rightarrow> string \<Rightarrow> string list \<Rightarrow> (http_error + string) option \<times> string list" where
  \<comment> \<open>\<open>fname\<close> is the name of the upload, \<open>run_id\<close> the value of \<open>uuid4().hex\<close>, which
      names the run directory; \<open>None\<close> is an exception that is not an
      \<open>HTTPException\<close> and leaves the handler.  \<open>dirs\<close> lists the run directories
      left by \<open>_cleanup_old_runs\<close>, which runs before the new one is made\<close>
  "analyze s fname run_id dirs =
     (case ensure_disk_space s of
        Raises e \<Rightarrow> (Some (Inl e), dirs)
      | Crashes \<Rightarrow> (None, dirs)
      | Done \<Rightarrow>
          let ext = lower (path_suffix fname)
          in if ext \<notin> set allowed_ext
               then (Some (Inl (HTTPException 400 ''Unsupported file type.'')), dirs)
             else
               let dirs' = (if run_id \<in> set dirs then dirs else dirs @ [run_id]);
                   r = guarded (analyze_body s ext) run_id dirs'
               in (Some (fst r), snd r))"

definition analyze_geojson_body :: "steps \<Rightarrow> outcome list" where
  \<comment> \<open>the statements of the \<open>try\<close> block of \<open>analyze_geojson\<close>\<close>
  "analyze_geojson_body s =
     [write_upload s, clamscan_upload s, load_vector s, polygon_check s,
      geo_limits s, set_crs s, within_coverage s, to_file s, analyzer s]"

definition analyze_geojson ::
  "steps \<Rightarrow> string \<Rightarrow> string list \<Rightarrow> (http_error + string) option \<times> string list" where
  "analyze_geojson s run_id dirs =
     (case ensure_disk_space s of
        Raises e \<Rightarrow> (Some (Inl e), dirs)
      | Crashes \<Rightarrow> (None, dirs)
      | Done \<Rightarrow>
          let dirs' = (if run_id \<in> set dirs then dirs else dirs @ [run_id]);
              r = guarded (analyze_geojson_body s) run_id dirs'
          in (Some (fst r), snd r))"

section \<open>Verified properties\<close>

subsection \<open>Canonical names\<close>

lemma endswith_iff: "endswith s suf \<longleftrightarrow> (\<exists>p. s = p @ suf)"
proof
  assume "endswith s suf"
  then have "s = take (length s - length suf) s @ suf"
    by (metis append_take_drop_id endswith_def)
  then show "\<exists>p. s = p @ suf" ..
next
  assume "\<exists>p. s = p @ suf"
  then show "endswith s suf" by (auto simp: endswith_def)
qed

lemma endswith_append [simp]: "endswith (b @ suf) suf"
  by (auto simp: endswith_iff)

lemma split_on_no_sep: "c \<notin> set s \<Longrightarrow> split_on c s = [s]"
  by (induction s) auto

lemma path_name_plain:
  "CHR ''/'' \<notin> set s \<Longrightarrow> s \<noteq> [] \<Longrightarrow> s \<noteq> ''.'' \<Longrightarrow> path_name s = s"
  by (simp add: path_name_def path_parts_def split_on_no_sep)

lemma str_replace_absent:
  "old \<noteq> [] \<Longrightarrow> \<not> contains old s \<Longrightarrow> str_replace old new s = s"
  by (induction s) auto

lemma str_replace_at_front:
  assumes "old \<noteq> []"
  shows "str_replace old new (old @ s) = new @ str_replace old new s"
proof -
  obtain c cs where e: "old @ s = c # cs"
    using assms by (cases "old @ s") auto
  have "startswith (c # cs) old"
    unfolding e [symmetric] by (simp add: startswith_def)
  moreover have "drop (length old) (c # cs) = s"
    unfolding e [symmetric] by simp
  ultimately show ?thesis
    using assms unfolding e by simp
qed

lemma strip_known_suffix:
  assumes "sfx \<in> set known_suffixes"
  shows "strip_first_suffix known_suffixes (b @ sfx) = b"
proof -
  have a: "\<not> endswith (b @ ''.zip'') ''.asc.gz''"
    by (auto simp: endswith_iff dest: arg_cong [where f = last])
  have c: "\<not> endswith (b @ ''.asc'') ''.asc.gz''"
    by (auto simp: endswith_iff dest: arg_cong [where f = last])
  have d: "\<not> endswith (b @ ''.asc'') ''.zip''"
    by (auto simp: endswith_iff dest: arg_cong [where f = last])
  have e: "\<not> endswith (b @ ''.tif'') ''.asc.gz''"
    by (auto simp: endswith_iff dest: arg_cong [where f = last])
  have f: "\<not> endswith (b @ ''.tif'') ''.zip''"
    by (auto simp: endswith_iff dest: arg_cong [where f = last])
  have g: "\<not> endswith (b @ ''.tif'') ''.asc''"
    by (auto simp: endswith_iff dest: arg_cong [where f = last])
  from assms consider "sfx = ''.asc.gz''" | "sfx = ''.zip''" | "sfx = ''.asc''" | "sfx = ''.tif''"
    by (auto simp: known_suffixes_def)
  then show ?thesis
    by cases (simp_all add: known_suffixes_def a c d e f g)
qed

lemma rename_dwd_file_pipeline:
  assumes "CHR ''/'' \<notin> set b" and "\<not> contains dwd_prefix (b @ sfx)"
    and "sfx \<in> set known_suffixes"
  shows "rename_dwd_file (dwd_prefix @ b @ sfx) = rstrip_char CHR ''_'' (strip_17 b) @ ''.asc''"
proof -
  have s: "CHR ''/'' \<notin> set sfx" "sfx \<noteq> []"
    using assms(3) by (auto simp: known_suffixes_def)
  have "path_name (dwd_prefix @ b @ sfx) = dwd_prefix @ b @ sfx"
    using assms(1) s by (intro path_name_plain) (auto simp: dwd_prefix_def)
  moreover have ne: "dwd_prefix \<noteq> []"
    by (simp add: dwd_prefix_def)
  have "str_replace dwd_prefix [] (dwd_prefix @ b @ sfx) = b @ sfx"
    by (simp only: str_replace_at_front [OF ne] str_replace_absent [OF ne assms(2)] append_Nil)
  ultimately show ?thesis
    using assms(3) by (simp only: rename_dwd_file_def Let_def strip_known_suffix)
qed

lemma rstrip_char_last: "s \<noteq> [] \<Longrightarrow> last s \<noteq> c \<Longrightarrow> rstrip_char c s = s"
  by (cases s rule: rev_cases) (auto simp: rstrip_char_def)

lemma strip_17_cases:
  "strip_17 b = (if endswith b ''_1917'' \<or> endswith b ''_2017'' then b
                 else if endswith b ''17'' then take (length b - 2) b else b)"
  by (simp add: strip_17_def)

lemma endswith_last: "endswith s suf \<Longrightarrow> suf \<noteq> [] \<Longrightarrow> s \<noteq> [] \<and> last s = last suf"
  by (auto simp: endswith_iff)

text \<open>
  Claim C2, as amended.  For a DWD file name made of the prefix
  \<open>grids_germany_annual_\<close>, a base name \<open>b\<close> and one of the known suffixes,
  \<open>rename_dwd_file\<close> removes the prefix and the suffix and appends \<open>.asc\<close>; a base
  name ending in \<open>_1917\<close> or \<open>_2017\<close> is kept whole, any other base name ending in
  \<open>17\<close> loses these two characters (nothing is expanded to four digits), and trailing
  underscores are removed.
\<close>

theorem rename_dwd_file_rule:
  assumes "CHR ''/'' \<notin> set b" and "\<not> contains dwd_prefix (b @ sfx)"
    and "sfx \<in> set known_suffixes"
  shows "(endswith b ''_1917'' \<or> endswith b ''_2017'' \<longrightarrow>
            rename_dwd_file (dwd_prefix @ b @ sfx) = b @ ''.asc'')
       \<and> (\<not> endswith b ''_1917'' \<and> \<not> endswith b ''_2017'' \<and> endswith b ''17'' \<longrightarrow>
            rename_dwd_file (dwd_prefix @ b @ sfx)
              = rstrip_char CHR ''_'' (take (length b - 2) b) @ ''.asc'')
       \<and> (\<not> endswith b ''17'' \<longrightarrow>
            rename_dwd_file (dwd_prefix @ b @ sfx) = rstrip_char CHR ''_'' b @ ''.asc'')
       \<and> rename_dwd_file ''grids_germany_annual_air_temp_max_1971.asc.gz''
            = ''air_temp_max_1971.asc''"
proof -
  note p = rename_dwd_file_pipeline [OF assms]
  have e: "endswith b ''_1917'' \<or> endswith b ''_2017'' \<Longrightarrow> endswith b ''17''"
    by (auto simp: endswith_iff)
  have k: "endswith b ''_1917'' \<or> endswith b ''_2017'' \<Longrightarrow> rstrip_char CHR ''_'' b = b"
    by (rule rstrip_char_last) (auto dest!: endswith_last)
  have x: "rename_dwd_file ''grids_germany_annual_air_temp_max_1971.asc.gz''
             = ''air_temp_max_1971.asc''"
    by (simp add: rename_dwd_file_def path_name_def path_parts_def dwd_prefix_def
        known_suffixes_def startswith_def endswith_def strip_17_def rstrip_char_def)
  show ?thesis
    using e k x by (auto simp: p strip_17_def)
qed

theorem rename_dwd_file_rule_witness:
  "rename_dwd_file ''grids_germany_annual_air_temp_max_201717.asc.gz'' = ''air_temp_max_2017.asc''"
  using rename_dwd_file_rule [of "''air_temp_max_201717''" "''.asc.gz''"]
  by (simp add: dwd_prefix_def known_suffixes_def startswith_def endswith_def rstrip_char_def)

text \<open>
  A name whose tail is the two digits \<open>17\<close> is not expanded to \<open>2017\<close>: the two
  digits are dropped.
\<close>

theorem rename_dwd_file_counterexample:
  "rename_dwd_file ''grids_germany_annual_precipitation_17.asc.gz'' = ''precipitation.asc''
   \<and> rename_dwd_file ''grids_germany_annual_precipitation_17.asc.gz'' \<noteq> ''precipitation_2017.asc''"
  by (simp add: rename_dwd_file_def path_name_def path_parts_def dwd_prefix_def known_suffixes_def startswith_def endswith_def strip_17_def rstrip_char_def)

subsection \<open>Deleting intermediate rasters\<close>

lemma unlink_each_filter:
  "unlink_each es d = filter (\<lambda>x. \<not> (x \<in> set es \<and> snd x = RegularFile)) d"
proof (induction es arbitrary: d)
  case Nil
  then show ?case by simp
next
  case (Cons e es)
  show ?case
  proof (cases "snd e = RegularFile")
    case True
    then have "unlink_each (e # es) d = unlink_each es (filter (\<lambda>x. x \<noteq> e) d)"
      by (simp add: unlink_def)
    also have "\<dots> = filter (\<lambda>x. \<not> (x \<in> set es \<and> snd x = RegularFile)) (filter (\<lambda>x. x \<noteq> e) d)"
      by (rule Cons.IH)
    also have "\<dots> = filter (\<lambda>x. \<not> (x \<in> set (e # es) \<and> snd x = RegularFile)) d"
      using True by (auto intro: filter_cong)
    finally show ?thesis .
  next
    case False
    then have "unlink_each (e # es) d = unlink_each es d"
      by (simp add: unlink_def)
    also have "\<dots> = filter (\<lambda>x. \<not> (x \<in> set es \<and> snd x = RegularFile)) d"
      by (rule Cons.IH)
    also have "\<dots> = filter (\<lambda>x. \<not> (x \<in> set (e # es) \<and> snd x = RegularFile)) d"
      using False by (auto intro: filter_cong)
    finally show ?thesis .
  qed
qed

lemma delete_pass_filter:
  "unlink_each (glob_star suf d) d
     = filter (\<lambda>x. \<not> (snd x = RegularFile \<and> endswith (fst x) suf)) d"
  unfolding unlink_each_filter glob_star_def by (auto intro: filter_cong)

lemma delete_patterns_filter:
  "delete_patterns sufs d
     = filter (\<lambda>x. \<not> (snd x = RegularFile \<and> (\<exists>suf \<in> set sufs. endswith (fst x) suf))) d"
proof (induction sufs arbitrary: d)
  case Nil
  then show ?case by simp
next
  case (Cons suf sufs)
  show ?case
    unfolding delete_patterns.simps Cons.IH delete_pass_filter filter_filter
    by (auto intro: filter_cong)
qed

lemma tif_not_deleted:
  assumes "endswith n ''.tif''"
  shows "\<not> endswith n ''.asc''" "\<not> endswith n ''.asc.gz''" "\<not> endswith n ''.zip''"
  using assms by (auto simp: endswith_iff dest: arg_cong [where f = last])

text \<open>
  Claim C7, as amended.  \<open>delete_raster_files\<close> removes exactly the regular files
  of the raster folder whose names end in \<open>.asc\<close>, \<open>.asc.gz\<close> or \<open>.zip\<close>, that is
  the decompressed grids and the raw archives; every entry whose name ends in
  \<open>.tif\<close> stays, and so does every georeferenced raster written by
  \<open>asc_to_tif_add_crs\<close>.
\<close>

theorem delete_raster_files_effect:
  "delete_raster_files d
     = filter (\<lambda>e. \<not> (snd e = RegularFile \<and>
          (endswith (fst e) ''.asc'' \<or> endswith (fst e) ''.asc.gz'' \<or> endswith (fst e) ''.zip''))) d
   \<and> (\<forall>e \<in> set d. endswith (fst e) ''.tif'' \<longrightarrow> e \<in> set (delete_raster_files d))
   \<and> ((asc_to_tif_name a, k) \<in> set d \<longrightarrow> (asc_to_tif_name a, k) \<in> set (delete_raster_files d))"
proof -
  have f: "delete_raster_files d
     = filter (\<lambda>e. \<not> (snd e = RegularFile \<and>
          (endswith (fst e) ''.asc'' \<or> endswith (fst e) ''.asc.gz'' \<or> endswith (fst e) ''.zip''))) d"
    unfolding delete_raster_files_def delete_patterns_filter by (auto intro: filter_cong)
  have t: "endswith (asc_to_tif_name a) ''.tif''"
    by (simp add: asc_to_tif_name_def)
  have g: "e \<in> set (delete_raster_files d)" if "e \<in> set d" "endswith (fst e) ''.tif''" for e
    using that tif_not_deleted [of "fst e"] unfolding f by simp
  have h: "(asc_to_tif_name a, k) \<in> set (delete_raster_files d)"
    if "(asc_to_tif_name a, k) \<in> set d"
    using g [OF that] t by simp
  show ?thesis
    using f g h by blast
qed

theorem delete_raster_files_effect_witness:
  "(''air_temp_max_1971.tif'', RegularFile) \<in> set (delete_raster_files
     [(''air_temp_max_1971.tif'', RegularFile), (''air_temp_max_1971.asc'', RegularFile)])"
proof -
  let ?d = "[(''air_temp_max_1971.tif'', RegularFile), (''air_temp_max_1971.asc'', RegularFile)]"
  have 1: "(''air_temp_max_1971.tif'', RegularFile) \<in> set ?d"
    by simp
  have 2: "endswith (fst (''air_temp_max_1971.tif'', RegularFile)) ''.tif''"
    by (simp add: endswith_def)
  have "\<forall>e \<in> set ?d. endswith (fst e) ''.tif'' \<longrightarrow> e \<in> set (delete_raster_files ?d)"
    by (rule delete_raster_files_effect [of ?d "[]" RegularFile, THEN conjunct2, THEN conjunct1])
  from this 1 have "endswith (fst (''air_temp_max_1971.tif'', RegularFile)) ''.tif''
      \<longrightarrow> (''air_temp_max_1971.tif'', RegularFile) \<in> set (delete_raster_files ?d)"
    by (rule bspec)
  from this 2 show ?thesis
    by (rule mp)
qed

text \<open>
  After the deletion the georeferenced raster is still in the folder, and the raw
  compressed archive is gone.
\<close>

theorem delete_raster_files_counterexample:
  "delete_raster_files
     [(''air_temp_max_1971.tif'', RegularFile),
      (''air_temp_max_1971.asc'', RegularFile),
      (''grids_germany_annual_air_temp_max_1971.asc.gz'', RegularFile)]
   = [(''air_temp_max_1971.tif'', RegularFile)]"
  by (simp add: delete_raster_files_def glob_star_def unlink_def endswith_def)

subsection \<open>Materialization check\<close>

text \<open>
  Claim C8.  \<open>check_if_already_downloaded\<close> answers \<open>True\<close> exactly when the
  directory exists, is not empty, holds some \<open>.tif\<close> entry, and holds for every
  requested link a \<open>.tif\<close> entry whose stem is the stem of the canonical name of the
  link; so a missing expected file, an empty directory and a missing directory all
  give \<open>False\<close>.
\<close>

theorem check_if_already_downloaded_iff:
  "check_if_already_downloaded url_path links dir \<longleftrightarrow>
     (\<exists>entries. dir = Some entries \<and> entries \<noteq> []
        \<and> (\<exists>n \<in> set entries. endswith n ''.tif'')
        \<and> (\<forall>link \<in> set links. \<exists>n \<in> set entries. endswith n ''.tif''
              \<and> path_stem n = path_stem (rename_dwd_file (path_name (url_path link)))))"
proof (cases dir)
  case None
  then show ?thesis by (simp add: check_if_already_downloaded_def)
next
  case (Some entries)
  let ?tifs = "filter (\<lambda>n. endswith n ''.tif'') entries"
  have a: "check_if_already_downloaded url_path links (Some entries) \<longleftrightarrow>
             entries \<noteq> [] \<and> ?tifs \<noteq> []
             \<and> (\<forall>link \<in> set links.
                   path_stem (rename_dwd_file (path_name (url_path link))) \<in> path_stem ` set ?tifs)"
    by (simp add: check_if_already_downloaded_def Let_def list_all_iff)
  have b: "?tifs \<noteq> [] \<longleftrightarrow> (\<exists>n \<in> set entries. endswith n ''.tif'')"
    by (auto simp: filter_empty_conv)
  have c: "x \<in> path_stem ` set ?tifs \<longleftrightarrow> (\<exists>n \<in> set entries. endswith n ''.tif'' \<and> path_stem n = x)"
    for x by auto
  show ?thesis
    unfolding Some a b c by simp
qed

theorem check_if_already_downloaded_iff_witness:
  "check_if_already_downloaded (\<lambda>l. l)
     [''/annual/grids_germany_annual_air_temp_max_1971.asc.gz'']
     (Some [''air_temp_max_1971.tif''])"
proof -
  have r: "path_stem (rename_dwd_file
             (path_name ''/annual/grids_germany_annual_air_temp_max_1971.asc.gz''))
           = ''air_temp_max_1971''"
    by code_simp
  have s: "path_stem ''air_temp_max_1971.tif'' = ''air_temp_max_1971''"
    by code_simp
  have t: "endswith ''air_temp_max_1971.tif'' ''.tif''"
    by code_simp
  show ?thesis
    unfolding check_if_already_downloaded_iff using r s t by simp
qed

subsection \<open>Decompression of ZIP containers\<close>

lemma zip_read_present: "m \<in> fst ` set ms \<Longrightarrow> \<exists>c. zip_read ms m = Some c"
proof -
  assume "m \<in> fst ` set ms"
  then have "filter (\<lambda>e. fst e = m) ms \<noteq> []"
    by (auto simp: filter_empty_conv)
  then show ?thesis
    by (cases "filter (\<lambda>e. fst e = m) ms") (simp_all add: zip_read_def)
qed

lemma asc_members_subset: "set (asc_members ms) \<subseteq> fst ` set ms"
  by (auto simp: asc_members_def)

text \<open>
  Claim C4, as amended.  For an input that is not already in a final format and is
  opened as a ZIP container, \<open>decompress_file\<close> raises the \<open>ValueError\<close> exactly when
  no member name ends in \<open>.asc\<close> (ignoring case); with one or more such members it
  succeeds and writes the content of the first of them under the canonical name.
\<close>

theorem decompress_file_zip:
  assumes "lower (path_suffix (fpath f)) \<notin> {''.asc'', ''.tif''}"
    and "sniffed f \<notin> {Some ''asc'', Some ''tif''}"
    and "path_name (fpath f) \<noteq> []"
    and "is_zipfile f \<or> sniffed f = Some ''zip'' \<or> lower (path_suffix (fpath f)) = ''.zip''"
    and "zip_members f = Some ms"
  shows "(asc_members ms = [] \<longrightarrow>
            decompress_file f = Inl (ValueError ''No .asc file found in archive.''))
       \<and> (asc_members ms \<noteq> [] \<longrightarrow>
            (\<exists>c. zip_read ms (hd (asc_members ms)) = Some c
               \<and> decompress_file f
                   = Inr (Written (rename_dwd_file (path_name (fpath f))) c)))"
proof (cases "asc_members ms")
  case Nil
  then show ?thesis
    using assms by (simp add: decompress_file_def Let_def)
next
  case (Cons m rest)
  then have "m \<in> fst ` set ms"
    using asc_members_subset [of ms] by auto
  then obtain c where c: "zip_read ms m = Some c"
    using zip_read_present by blast
  have "decompress_file f = Inr (Written (rename_dwd_file (path_name (fpath f))) c)"
    using assms Cons c by (simp add: decompress_file_def Let_def)
  then show ?thesis
    using Cons c by simp
qed

theorem decompress_file_zip_witness:
  "decompress_file
     \<lparr>fpath = ''raster/grids_germany_annual_air_temp_max_201717.asc.gz'',
      sniffed = Some ''zip'', is_zipfile = True,
      zip_members = Some [(''readme.txt'', ''R''), (''air_temp_max_201717.asc'', ''A'')],
      gzip_payload = None\<rparr>
   = Inr (Written ''air_temp_max_2017.asc'' ''A'')"
proof -
  let ?f = "\<lparr>fpath = ''raster/grids_germany_annual_air_temp_max_201717.asc.gz'',
      sniffed = Some ''zip'', is_zipfile = True,
      zip_members = Some [(''readme.txt'', ''R''), (''air_temp_max_201717.asc'', ''A'')],
      gzip_payload = None\<rparr>"
  let ?ms = "[(''readme.txt'', ''R''), (''air_temp_max_201717.asc'', ''A'')]"
  have 1: "lower (path_suffix (fpath ?f)) \<notin> {''.asc'', ''.tif''}"
    by code_simp
  have 2: "sniffed ?f \<notin> {Some ''asc'', Some ''tif''}"
    by simp
  have 3: "path_name (fpath ?f) \<noteq> []"
    by code_simp
  have 4: "is_zipfile ?f \<or> sniffed ?f = Some ''zip'' \<or> lower (path_suffix (fpath ?f)) = ''.zip''"
    by simp
  have 5: "zip_members ?f = Some ?ms"
    by simp
  have 6: "asc_members ?ms = [''air_temp_max_201717.asc'']"
    by code_simp
  have 7: "zip_read ?ms ''air_temp_max_201717.asc'' = Some ''A''"
    by code_simp
  have 8: "rename_dwd_file (path_name (fpath ?f)) = ''air_temp_max_2017.asc''"
    by code_simp
  from decompress_file_zip [OF 1 2 3 4 5]
  obtain c where "zip_read ?ms (hd (asc_members ?ms)) = Some c"
    and "decompress_file ?f = Inr (Written (rename_dwd_file (path_name (fpath ?f))) c)"
    using 6 by auto
  then show ?thesis
    using 6 7 8 by simp
qed

text \<open>An archive with two grid members is decompressed, not rejected.\<close>

theorem decompress_file_counterexample:
  "decompress_file
     \<lparr>fpath = ''raster/grids_germany_annual_air_temp_max_201717.asc.gz'',
      sniffed = Some ''zip'', is_zipfile = True,
      zip_members = Some [(''a.asc'', ''A''), (''b.asc'', ''B'')],
      gzip_payload = None\<rparr>
   = Inr (Written ''air_temp_max_2017.asc'' ''A'')"
  by code_simp

subsection \<open>Keys of the statistics table\<close>

lemma map_of_dict_set: "map_of (dict_set d k v) = (map_of d)(k \<mapsto> v)"
  by (induction d) (auto simp: fun_eq_iff)

lemma dict_set_fresh: "k \<notin> fst ` set d \<Longrightarrow> dict_set d k v = d @ [(k, v)]"
  by (induction d) auto

lemma dict_fold_distinct:
  "distinct (map fst (d @ ps)) \<Longrightarrow> foldl (\<lambda>d (k, v). dict_set d k v) d ps = d @ ps"
proof (induction ps arbitrary: d)
  case Nil
  then show ?case by simp
next
  case (Cons p ps)
  obtain k v where p: "p = (k, v)" by (cases p)
  have "k \<notin> fst ` set d"
    using Cons.prems p by auto
  then have "dict_set d k v = d @ [(k, v)]"
    by (rule dict_set_fresh)
  moreover have "distinct (map fst ((d @ [(k, v)]) @ ps))"
    using Cons.prems p by simp
  ultimately show ?case
    using Cons.IH [of "d @ [(k, v)]"] p by simp
qed

lemma dict_of_pairs_distinct: "distinct (map fst ps) \<Longrightarrow> dict_of_pairs ps = ps"
  using dict_fold_distinct [of "[]" ps] by (simp add: dict_of_pairs_def)

lemma json_lookup_insert:
  "json_lookup (json_insert js (key, v)) n y
     = (if (n, y) = split_key key then Some v else json_lookup js n y)"
proof -
  obtain a b where s: "split_key key = (a, b)" by (cases "split_key key")
  show ?thesis
  proof (cases "map_of js a")
    case None
    then show ?thesis
      by (simp add: json_insert_def json_lookup_def s map_of_dict_set)
  next
    case (Some i)
    then show ?thesis
      by (simp add: json_insert_def json_lookup_def s map_of_dict_set)
  qed
qed

lemma json_lookup_fold_other:
  "\<forall>kv \<in> set ps. split_key (fst kv) \<noteq> (n, y) \<Longrightarrow>
     json_lookup (foldl json_insert js ps) n y = json_lookup js n y"
proof (induction ps arbitrary: js)
  case Nil
  then show ?case by simp
next
  case (Cons p ps)
  obtain k v where p: "p = (k, v)" by (cases p)
  have "json_lookup (foldl json_insert (json_insert js (k, v)) ps) n y
          = json_lookup (json_insert js (k, v)) n y"
    using Cons.prems by (intro Cons.IH) simp
  also have "\<dots> = json_lookup js n y"
    using Cons.prems p by (auto simp: json_lookup_insert)
  finally show ?case
    by (simp add: p)
qed

lemma json_lookup_fold_distinct:
  "distinct (map (\<lambda>kv. split_key (fst kv)) ps) \<Longrightarrow> (k, v) \<in> set ps \<Longrightarrow>
     json_lookup (foldl json_insert js ps) (fst (split_key k)) (snd (split_key k)) = Some v"
proof (induction ps arbitrary: js)
  case Nil
  then show ?case by simp
next
  case (Cons p ps)
  obtain k' v' where p: "p = (k', v')" by (cases p)
  show ?case
  proof (cases "(k, v) = p")
    case True
    then have pe: "p = (k, v)"
      by simp
    have "\<forall>kv \<in> set ps. split_key (fst kv) \<noteq> (fst (split_key k), snd (split_key k))"
      using Cons.prems(1) pe by force
    then have "json_lookup (foldl json_insert (json_insert js (k, v)) ps)
                 (fst (split_key k)) (snd (split_key k))
               = json_lookup (json_insert js (k, v)) (fst (split_key k)) (snd (split_key k))"
      by (rule json_lookup_fold_other)
    then show ?thesis
      unfolding pe by (simp add: json_lookup_insert)
  next
    case False
    then have "(k, v) \<in> set ps"
      using Cons.prems(2) by auto
    moreover have "distinct (map (\<lambda>kv. split_key (fst kv)) ps)"
      using Cons.prems(1) by simp
    ultimately show ?thesis
      using Cons.IH by simp
  qed
qed

text \<open>
  Claim C3, as amended.  When the raster names split into pairwise distinct keys, the
  table maps, for every processed raster, the name without its last five characters
  and then the last four characters to the statistics records of that raster.
\<close>

theorem rasterstats_json_keying:
  assumes "distinct (map (\<lambda>f. split_key (path_stem f)) files_tif)"
    and "f \<in> set files_tif"
  shows "json_lookup (rasterstats_json zs files_tif)
           (take (length (path_stem f) - 5) (path_stem f))
           (drop (length (path_stem f) - 4) (path_stem f)) = Some (zs f)"
proof -
  let ?ps = "zip (map path_stem files_tif) (map zs files_tif)"
  have z: "?ps = map (\<lambda>f. (path_stem f, zs f)) files_tif"
    by (induction files_tif) auto
  have d: "distinct (map (\<lambda>kv. split_key (fst kv)) ?ps)"
    using assms(1) unfolding z by (simp add: comp_def)
  have "distinct (map path_stem files_tif)"
    using assms(1) distinct_map [of split_key "map path_stem files_tif"]
    by (simp add: comp_def)
  moreover have "map fst ?ps = map path_stem files_tif"
    unfolding z by (simp add: comp_def)
  ultimately have "distinct (map fst ?ps)"
    by simp
  then have "dict_of_pairs ?ps = ?ps"
    by (rule dict_of_pairs_distinct)
  then have r: "rasterstats_json zs files_tif = foldl json_insert [] ?ps"
    by (simp add: rasterstats_json_def)
  have "(path_stem f, zs f) \<in> set ?ps"
    using assms(2) unfolding z by auto
  from json_lookup_fold_distinct [OF d this, of "[]"] show ?thesis
    unfolding r by (simp add: split_key_def)
qed

theorem rasterstats_json_keying_witness:
  "json_lookup
     (rasterstats_json (\<lambda>f. length f)
        [''raster/air_temp_max_1971.tif'', ''raster/frost_days_1971.tif''])
     ''frost_days'' ''1971'' = Some 26"
proof -
  let ?fs = "[''raster/air_temp_max_1971.tif'', ''raster/frost_days_1971.tif'']"
  have 1: "distinct (map (\<lambda>f. split_key (path_stem f)) ?fs)"
    by code_simp
  have 2: "''raster/frost_days_1971.tif'' \<in> set ?fs"
    by simp
  have 3: "path_stem ''raster/frost_days_1971.tif'' = ''frost_days_1971''"
    by code_simp
  from rasterstats_json_keying [OF 1 2, of "\<lambda>f. length f"] show ?thesis
    unfolding 3 by simp
qed

text \<open>
  The variable is the name without its last five characters: the table has no entry
  under the name without its last four characters.
\<close>

theorem rasterstats_json_counterexample:
  "split_key ''air_temp_max_1971'' = (''air_temp_max'', ''1971'')
   \<and> json_lookup (rasterstats_json (\<lambda>f. length f) [''raster/air_temp_max_1971.tif''])
       ''air_temp_max_'' ''1971'' = None
   \<and> json_lookup (rasterstats_json (\<lambda>f. length f) [''raster/air_temp_max_1971.tif''])
       ''air_temp_max'' ''1971'' = Some 28"
  by code_simp

subsection \<open>Vertex counting\<close>

lemma count_geom_other:
  "geom_type x \<noteq> ''Polygon'' \<Longrightarrow> geom_type x \<noteq> ''MultiPolygon'' \<Longrightarrow> count_geom x = 0"
  by (cases x) simp_all

lemma count_vertices_other:
  "\<not> (\<exists>x. g = Some x \<and> (geom_type x = ''Polygon'' \<or> geom_type x = ''MultiPolygon''))
     \<Longrightarrow> count_vertices g = 0"
  by (cases g) (auto simp: count_vertices_def count_geom_other)

lemma vertex_sum_polygons:
  "sum_list (map count_vertices gdf)
     = sum_list (map count_vertices
         (filter (\<lambda>g. \<exists>x. g = Some x \<and> (geom_type x = ''Polygon'' \<or> geom_type x = ''MultiPolygon''))
            gdf))"
proof (induction gdf)
  case Nil
  then show ?case by simp
next
  case (Cons g gdf)
  then show ?case
    using count_vertices_other [of g] by (simp del: not_ex)
qed

text \<open>
  Claim C10.  \<open>_count_vertices\<close> is 0 for a missing geometry and for every geometry
  whose type is neither \<open>Polygon\<close> nor \<open>MultiPolygon\<close>; the vertex total compared with
  \<open>MAX_VERTICES\<close> is therefore the total over the polygon and multipolygon features
  alone, and \<open>_validate_geo_limits\<close> answers "Geometry is too complex." exactly when
  the feature count is within its limit and that total exceeds \<open>MAX_VERTICES\<close>.
\<close>

theorem count_vertices_polygons_only:
  "(g = None \<or> (\<exists>x. g = Some x \<and> geom_type x \<noteq> ''Polygon'' \<and> geom_type x \<noteq> ''MultiPolygon'')
      \<longrightarrow> count_vertices g = 0)
   \<and> sum_list (map count_vertices gdf)
       = sum_list (map count_vertices
           (filter (\<lambda>g. \<exists>x. g = Some x \<and> (geom_type x = ''Polygon'' \<or> geom_type x = ''MultiPolygon''))
              gdf))
   \<and> (validate_geo_limits max_features max_vertices gdf
         = Inl (HTTPException 400 ''Geometry is too complex.'')
       \<longleftrightarrow> int (length gdf) \<le> max_features
           \<and> int (sum_list (map count_vertices
               (filter (\<lambda>g. \<exists>x. g = Some x \<and> (geom_type x = ''Polygon'' \<or> geom_type x = ''MultiPolygon''))
                  gdf))) > max_vertices)"
proof -
  have a: "g = None \<or> (\<exists>x. g = Some x \<and> geom_type x \<noteq> ''Polygon'' \<and> geom_type x \<noteq> ''MultiPolygon'')
      \<longrightarrow> count_vertices g = 0"
    using count_vertices_other [of g] by auto
  have c: "validate_geo_limits max_features max_vertices gdf
         = Inl (HTTPException 400 ''Geometry is too complex.'')
       \<longleftrightarrow> int (length gdf) \<le> max_features
           \<and> int (sum_list (map count_vertices gdf)) > max_vertices"
    by (simp add: validate_geo_limits_def Let_def)
  show ?thesis
    using a c vertex_sum_polygons [of gdf] by simp
qed

theorem count_vertices_polygons_only_witness:
  "count_vertices (Some (GeometryCollection [Polygon [(0, 0), (1, 0), (1, 1), (0, 0)] []])) = 0"
proof -
  let ?g = "Some (GeometryCollection [Polygon [(0, 0), (1, 0), (1, 1), (0, 0)] []])"
  have "?g = None \<or> (\<exists>x. ?g = Some x \<and> geom_type x \<noteq> ''Polygon'' \<and> geom_type x \<noteq> ''MultiPolygon'')"
    by simp
  with count_vertices_polygons_only [of ?g "[]" 0 0, THEN conjunct1] show ?thesis
    by (rule mp)
qed

subsection \<open>Archive extraction\<close>

lemma check_members_status:
  "check_members dest_dir ms = Some e \<Longrightarrow> \<exists>d. e = HTTPException 400 d"
  by (induction ms) (auto simp: Let_def split: if_splits)

lemma check_members_outside:
  "m \<in> set ms \<Longrightarrow> \<not> inside dest_dir m \<Longrightarrow> check_members dest_dir ms \<noteq> None"
  by (induction ms) (auto simp: Let_def)

lemma check_members_ext:
  "m \<in> set ms \<Longrightarrow> \<not> is_dir m \<Longrightarrow> lower (path_suffix (filename m)) \<noteq> [] \<Longrightarrow>
   lower (path_suffix (filename m)) \<notin> set allowed_archive_ext \<Longrightarrow>
   check_members dest_dir ms \<noteq> None"
  by (induction ms) (auto simp: Let_def)

lemma safe_extract_zip_rejected:
  "fst (safe_extract_zip mf mb ms dest_dir fs) = Inl e \<Longrightarrow>
     (\<exists>d. e = HTTPException 400 d) \<and> snd (safe_extract_zip mf mb ms dest_dir fs) = fs"
  using check_members_status [of dest_dir ms]
  by (auto simp: safe_extract_zip_def Let_def split: if_splits option.splits)

lemma safe_extract_zip_accepts:
  "fst (safe_extract_zip mf mb ms dest_dir fs) = Inr u \<Longrightarrow>
     int (length ms) \<le> mf \<and> int (sum_list (map file_size ms)) \<le> mb
     \<and> check_members dest_dir ms = None"
  by (auto simp: safe_extract_zip_def Let_def split: if_splits option.splits)

text \<open>
  Claim C5, as amended.  \<open>_safe_extract_zip\<close> rejects the archive with status 400
  when it has more than \<open>MAX_ZIP_FILES\<close> entries, when the sizes of its entries add
  up to more than \<open>MAX_ZIP_UNCOMPRESSED_BYTES\<close>, when the resolved target of some
  entry does not begin with the resolved destination path, or when some entry that
  is not a directory has an extension outside the allowed set; every rejection
  leaves the file system as it was, nothing being extracted.
\<close>

theorem safe_extract_zip_defenses:
  "(int (length ms) > mf
      \<or> int (sum_list (map file_size ms)) > mb
      \<or> (\<exists>m \<in> set ms. \<not> inside dest_dir m)
      \<or> (\<exists>m \<in> set ms. \<not> is_dir m \<and> lower (path_suffix (filename m)) \<noteq> []
            \<and> lower (path_suffix (filename m)) \<notin> set allowed_archive_ext)
      \<longrightarrow> (\<exists>d. fst (safe_extract_zip mf mb ms dest_dir fs) = Inl (HTTPException 400 d)))
   \<and> (\<forall>e. fst (safe_extract_zip mf mb ms dest_dir fs) = Inl e
        \<longrightarrow> (\<exists>d. e = HTTPException 400 d) \<and> snd (safe_extract_zip mf mb ms dest_dir fs) = fs)"
proof -
  have r: "\<exists>d. fst (safe_extract_zip mf mb ms dest_dir fs) = Inl (HTTPException 400 d)"
    if "\<And>u. fst (safe_extract_zip mf mb ms dest_dir fs) \<noteq> Inr u"
  proof (cases "fst (safe_extract_zip mf mb ms dest_dir fs)")
    case (Inl e)
    then show ?thesis
      using safe_extract_zip_rejected [of mf mb ms dest_dir fs e] by auto
  next
    case (Inr u)
    then show ?thesis
      using that by simp
  qed
  have n: "fst (safe_extract_zip mf mb ms dest_dir fs) \<noteq> Inr u"
    if "int (length ms) > mf
      \<or> int (sum_list (map file_size ms)) > mb
      \<or> (\<exists>m \<in> set ms. \<not> inside dest_dir m)
      \<or> (\<exists>m \<in> set ms. \<not> is_dir m \<and> lower (path_suffix (filename m)) \<noteq> []
            \<and> lower (path_suffix (filename m)) \<notin> set allowed_archive_ext)" for u
  proof
    assume "fst (safe_extract_zip mf mb ms dest_dir fs) = Inr u"
    from safe_extract_zip_accepts [OF this] show False
      using that check_members_outside [of _ ms dest_dir] check_members_ext [of _ ms dest_dir]
      by auto
  qed
  show ?thesis
    using r n safe_extract_zip_rejected [of mf mb ms dest_dir fs] by blast
qed

theorem safe_extract_zip_defenses_witness:
  "\<exists>d. fst (safe_extract_zip 2000 1000
          [\<lparr>filename = ''area.shp'', file_size = 10\<rparr>, \<lparr>filename = ''../evil'', file_size = 10\<rparr>]
          ''/srv/output/web_runs/r1/upload'' [])
        = Inl (HTTPException 400 d)"
proof -
  let ?ms = "[\<lparr>filename = ''area.shp'', file_size = 10\<rparr>, \<lparr>filename = ''../evil'', file_size = 10\<rparr>]"
  have "\<not> inside ''/srv/output/web_runs/r1/upload'' \<lparr>filename = ''../evil'', file_size = 10\<rparr>"
    by code_simp
  then have "\<exists>m \<in> set ?ms. \<not> inside ''/srv/output/web_runs/r1/upload'' m"
    by simp
  then show ?thesis
    using safe_extract_zip_defenses [of 2000 ?ms 1000 "''/srv/output/web_runs/r1/upload''" "[]",
        THEN conjunct1]
    by blast
qed

text \<open>
  A directory entry carrying the extension \<open>.exe\<close> is accepted and the archive is
  extracted; so is an entry whose resolved target lies in a sibling of the
  destination directory whose name starts with the name of that directory.
\<close>

theorem safe_extract_zip_counterexample:
  "lower (path_suffix ''tools.exe/'') = ''.exe''
   \<and> ''.exe'' \<notin> set allowed_archive_ext
   \<and> safe_extract_zip 2000 1000
       [\<lparr>filename = ''tools.exe/'', file_size = 0\<rparr>, \<lparr>filename = ''area.shp'', file_size = 10\<rparr>]
       ''/srv/output/web_runs/r1/upload'' []
     = (Inr (), [''/srv/output/web_runs/r1/upload/tools.exe'',
                 ''/srv/output/web_runs/r1/upload/area.shp''])
   \<and> path_resolve (path_join ''/srv/output/web_runs/r1/upload'' ''../upload_old/area.shp'')
     = ''/srv/output/web_runs/r1/upload_old/area.shp''
   \<and> fst (safe_extract_zip 2000 1000
       [\<lparr>filename = ''../upload_old/area.shp'', file_size = 10\<rparr>]
       ''/srv/output/web_runs/r1/upload'' []) = Inr ()"
  by code_simp

subsection \<open>Rate limiting\<close>

lemma hits_after_request:
  "0 < rpm \<Longrightarrow>
     hits (snd (rate_limit_middleware rpm tbl nr)) k
       = hits tbl k + (if rate_key nr = k then 1 else 0)"
  by (simp add: rate_limit_middleware_def Let_def hits_def)

lemma hits_after_serve_all:
  "0 < rpm \<Longrightarrow>
     hits (snd (serve_all rpm tbl nrs)) k
       = hits tbl k + length (filter (\<lambda>q. rate_key q = k) nrs)"
proof (induction nrs arbitrary: tbl)
  case Nil
  then show ?case by simp
next
  case (Cons nr nrs)
  have "snd (serve_all rpm tbl (nr # nrs))
          = snd (serve_all rpm (snd (rate_limit_middleware rpm tbl nr)) nrs)"
    by (simp add: split_beta Let_def)
  then show ?case
    using Cons.IH [OF Cons.prems, of "snd (rate_limit_middleware rpm tbl nr)"]
      hits_after_request [OF Cons.prems, of tbl nr k]
    by simp
qed

lemma unlimited_request: "rpm \<le> 0 \<Longrightarrow> rate_limit_middleware rpm tbl nr = (CallNext, tbl)"
  by (simp add: rate_limit_middleware_def)

lemma unlimited_serve_all:
  "rpm \<le> 0 \<Longrightarrow> serve_all rpm tbl nrs = (replicate (length nrs) CallNext, tbl)"
  by (induction nrs) (simp_all add: unlimited_request)

text \<open>
  Claim C9, as amended.  With a positive \<open>RATE_LIMIT_PER_MIN\<close>, the middleware
  refuses a request, raising its "Too many requests" exception instead of passing
  the request on, exactly when the requests received before it from the same client
  address in the same clock minute (the minute \<open>now // 60\<close>, not a rolling window)
  already number \<open>RATE_LIMIT_PER_MIN\<close> or more; the path of the request plays no
  part.  With a limit of zero or less every request is passed on and nothing is
  counted.
\<close>

theorem rate_limit_fixed_window:
  "(0 < rpm \<longrightarrow>
      fst (rate_limit_middleware rpm (snd (serve_all rpm Map.empty earlier)) nr)
        = (if rpm \<le> int (length (filter (\<lambda>q. rate_key q = rate_key nr) earlier))
           then Raise (HTTPException 429 ''Too many requests. Please slow down.'')
           else CallNext))
   \<and> (rpm \<le> 0 \<longrightarrow>
      rate_limit_middleware rpm tbl nr = (CallNext, tbl)
      \<and> serve_all rpm tbl earlier = (replicate (length earlier) CallNext, tbl))
   \<and> rate_key (fst nr, (snd nr)\<lparr>req_path := p\<rparr>) = rate_key nr"
proof -
  have a: "fst (rate_limit_middleware rpm (snd (serve_all rpm Map.empty earlier)) nr)
        = (if rpm \<le> int (length (filter (\<lambda>q. rate_key q = rate_key nr) earlier))
           then Raise (HTTPException 429 ''Too many requests. Please slow down.'')
           else CallNext)"
    if pos: "0 < rpm"
  proof -
    have "hits (snd (serve_all rpm Map.empty earlier)) (rate_key nr)
            = length (filter (\<lambda>q. rate_key q = rate_key nr) earlier)"
      using hits_after_serve_all [OF pos, of Map.empty earlier "rate_key nr"]
      by (simp add: hits_def)
    then show ?thesis
      using pos by (auto simp: rate_limit_middleware_def Let_def)
  qed
  have b: "rate_limit_middleware rpm tbl nr = (CallNext, tbl)
      \<and> serve_all rpm tbl earlier = (replicate (length earlier) CallNext, tbl)"
    if "rpm \<le> 0"
    using that by (simp add: unlimited_request unlimited_serve_all)
  have c: "rate_key (fst nr, (snd nr)\<lparr>req_path := p\<rparr>) = rate_key nr"
    by (simp add: rate_key_def client_ip_def)
  show ?thesis
    using a b c by blast
qed

theorem rate_limit_fixed_window_witness:
  "fst (rate_limit_middleware 2
          (snd (serve_all 2 Map.empty
             [(61, \<lparr>forwarded = [], client_host = Some ''10.0.0.1'', req_path = ''/api/coverage''\<rparr>),
              (62, \<lparr>forwarded = [], client_host = Some ''10.0.0.1'', req_path = ''/api/analyze''\<rparr>)]))
          (63, \<lparr>forwarded = [], client_host = Some ''10.0.0.1'', req_path = ''/api/coverage''\<rparr>))
   = Raise (HTTPException 429 ''Too many requests. Please slow down.'')
   \<and> fst (serve_all 0 Map.empty
       [(61, \<lparr>forwarded = [], client_host = Some ''10.0.0.1'', req_path = ''/api/coverage''\<rparr>),
        (62, \<lparr>forwarded = [], client_host = Some ''10.0.0.1'', req_path = ''/api/analyze''\<rparr>)])
     = [CallNext, CallNext]"
proof -
  let ?e = "[(61, \<lparr>forwarded = [], client_host = Some ''10.0.0.1'', req_path = ''/api/coverage''\<rparr>),
             (62, \<lparr>forwarded = [], client_host = Some ''10.0.0.1'', req_path = ''/api/analyze''\<rparr>)]"
  let ?r = "(63, \<lparr>forwarded = [], client_host = Some ''10.0.0.1'', req_path = ''/api/coverage''\<rparr>)"
  have p: "(0::int) < 2" and z: "(0::int) \<le> 0"
    by simp_all
  have 1: "fst (rate_limit_middleware 2 (snd (serve_all 2 Map.empty ?e)) ?r)
             = Raise (HTTPException 429 ''Too many requests. Please slow down.'')"
    unfolding rate_limit_fixed_window [of 2 ?e ?r, THEN conjunct1, rule_format, OF p]
    by (simp add: rate_key_def client_ip_def)
  have 2: "fst (serve_all 0 Map.empty ?e) = [CallNext, CallNext]"
    using rate_limit_fixed_window [of 0 ?e ?r Map.empty, THEN conjunct2, THEN conjunct1,
        rule_format, OF z]
    by simp
  show ?thesis
    using 1 2 by simp
qed

text \<open>
  Four requests of one client within two seconds, across a minute boundary, with a
  limit of two per minute: none is refused.
\<close>

theorem rate_limit_counterexample:
  "fst (serve_all 2 Map.empty
     [(59, \<lparr>forwarded = [], client_host = Some ''10.0.0.1'', req_path = ''/api/coverage''\<rparr>),
      (59, \<lparr>forwarded = [], client_host = Some ''10.0.0.1'', req_path = ''/api/coverage''\<rparr>),
      (60, \<lparr>forwarded = [], client_host = Some ''10.0.0.1'', req_path = ''/api/coverage''\<rparr>),
      (60, \<lparr>forwarded = [], client_host = Some ''10.0.0.1'', req_path = ''/api/coverage''\<rparr>)])
   = [CallNext, CallNext, CallNext, CallNext]"
  by (simp add: rate_limit_middleware_def rate_key_def client_ip_def hits_def Let_def)

subsection \<open>Cleanup of failed requests\<close>

lemma first_failure_Done_iff: "first_failure body = Done \<longleftrightarrow> (\<forall>x \<in> set body. x = Done)"
  by (induction body rule: first_failure.induct) auto

lemma analyze_created:
  assumes "ensure_disk_space s = Done" and "lower (path_suffix fname) \<in> set allowed_ext"
  shows "analyze s fname run_id dirs
           = (Some (fst (guarded (analyze_body s (lower (path_suffix fname))) run_id
                      (if run_id \<in> set dirs then dirs else dirs @ [run_id]))),
              snd (guarded (analyze_body s (lower (path_suffix fname))) run_id
                      (if run_id \<in> set dirs then dirs else dirs @ [run_id])))"
proof -
  have "\<not> lower (path_suffix fname) \<notin> set allowed_ext"
    using assms(2) by blast
  then show ?thesis
    unfolding analyze_def Let_def assms(1) outcome.case by (rule if_not_P)
qed

lemma analyze_geojson_created:
  assumes "ensure_disk_space s = Done"
  shows "analyze_geojson s run_id dirs
           = (Some (fst (guarded (analyze_geojson_body s) run_id
                      (if run_id \<in> set dirs then dirs else dirs @ [run_id]))),
              snd (guarded (analyze_geojson_body s) run_id
                      (if run_id \<in> set dirs then dirs else dirs @ [run_id])))"
  unfolding analyze_geojson_def Let_def assms outcome.case ..

lemma cleanup_created:
  "cleanup_run_dir run_id (if run_id \<in> set dirs then dirs else dirs @ [run_id])
     = filter (\<lambda>d. d \<noteq> run_id) dirs"
  by (simp add: cleanup_run_dir_def)

lemma handler_spec:
  assumes "h = (Some (fst (guarded body run_id
                     (if run_id \<in> set dirs then dirs else dirs @ [run_id]))),
                snd (guarded body run_id
                     (if run_id \<in> set dirs then dirs else dirs @ [run_id])))"
  shows "((\<exists>x \<in> set body. x \<noteq> Done) \<longrightarrow>
            (\<exists>e. fst h = Some (Inl e)) \<and> snd h = filter (\<lambda>d. d \<noteq> run_id) dirs)
       \<and> (\<forall>e. first_failure body = Raises e \<longrightarrow> fst h = Some (Inl e))
       \<and> (first_failure body = Crashes \<longrightarrow>
            fst h = Some (Inl (HTTPException 500 ''Unexpected server error.'')))
       \<and> (\<forall>e. fst h = Some (Inl e) \<longrightarrow> run_id \<notin> set (snd h))
       \<and> ((\<forall>x \<in> set body. x = Done) \<longrightarrow>
            fst h = Some (Inr run_id) \<and> run_id \<in> set (snd h))"
proof (cases "first_failure body")
  case Done
  then have "\<forall>x \<in> set body. x = Done"
    by (simp add: first_failure_Done_iff)
  then show ?thesis
    using Done by (simp add: assms guarded_def)
next
  case (Raises e)
  then have "\<not> (\<forall>x \<in> set body. x = Done)"
    using first_failure_Done_iff [of body] by simp
  then show ?thesis
    using Raises by (simp add: assms guarded_def cleanup_created)
next
  case Crashes
  then have "\<not> (\<forall>x \<in> set body. x = Done)"
    using first_failure_Done_iff [of body] by simp
  then show ?thesis
    using Crashes by (simp add: assms guarded_def cleanup_created)
qed

text \<open>
  Claim C6.  Once the run directory exists (the disk-space check has passed and, for
  an upload, the file type is supported), a failure of any later step, be it an
  \<open>HTTPException\<close> or any other exception, ends the request with an error response
  and with its run directory removed, the other run directories being left as they
  were: an \<open>HTTPException\<close> is passed on and any other exception becomes status 500.
  Every error response leaves no run directory, and a request whose steps all
  succeed returns its run identifier and keeps its directory.
\<close>

theorem failed_request_leaves_no_run_dir:
  "(ensure_disk_space s = Done \<longrightarrow> lower (path_suffix fname) \<in> set allowed_ext \<longrightarrow>
      ((\<exists>x \<in> set (analyze_body s (lower (path_suffix fname))). x \<noteq> Done) \<longrightarrow>
         (\<exists>e. fst (analyze s fname run_id dirs) = Some (Inl e))
         \<and> snd (analyze s fname run_id dirs) = filter (\<lambda>d. d \<noteq> run_id) dirs)
      \<and> (\<forall>e. first_failure (analyze_body s (lower (path_suffix fname))) = Raises e
            \<longrightarrow> fst (analyze s fname run_id dirs) = Some (Inl e))
      \<and> (first_failure (analyze_body s (lower (path_suffix fname))) = Crashes
            \<longrightarrow> fst (analyze s fname run_id dirs)
                  = Some (Inl (HTTPException 500 ''Unexpected server error.'')))
      \<and> (\<forall>e. fst (analyze s fname run_id dirs) = Some (Inl e)
            \<longrightarrow> run_id \<notin> set (snd (analyze s fname run_id dirs)))
      \<and> ((\<forall>x \<in> set (analyze_body s (lower (path_suffix fname))). x = Done) \<longrightarrow>
            fst (analyze s fname run_id dirs) = Some (Inr run_id)
            \<and> run_id \<in> set (snd (analyze s fname run_id dirs))))
   \<and> (ensure_disk_space s = Done \<longrightarrow>
      ((\<exists>x \<in> set (analyze_geojson_body s). x \<noteq> Done) \<longrightarrow>
         (\<exists>e. fst (analyze_geojson s run_id dirs) = Some (Inl e))
         \<and> snd (analyze_geojson s run_id dirs) = filter (\<lambda>d. d \<noteq> run_id) dirs)
      \<and> (\<forall>e. first_failure (analyze_geojson_body s) = Raises e
            \<longrightarrow> fst (analyze_geojson s run_id dirs) = Some (Inl e))
      \<and> (first_failure (analyze_geojson_body s) = Crashes
            \<longrightarrow> fst (analyze_geojson s run_id dirs)
                  = Some (Inl (HTTPException 500 ''Unexpected server error.'')))
      \<and> (\<forall>e. fst (analyze_geojson s run_id dirs) = Some (Inl e)
            \<longrightarrow> run_id \<notin> set (snd (analyze_geojson s run_id dirs)))
      \<and> ((\<forall>x \<in> set (analyze_geojson_body s). x = Done) \<longrightarrow>
            fst (analyze_geojson s run_id dirs) = Some (Inr run_id)
            \<and> run_id \<in> set (snd (analyze_geojson s run_id dirs))))"
proof (rule conjI; intro impI)
  assume h: "ensure_disk_space s = Done" "lower (path_suffix fname) \<in> set allowed_ext"
  show "((\<exists>x \<in> set (analyze_body s (lower (path_suffix fname))). x \<noteq> Done) \<longrightarrow>
         (\<exists>e. fst (analyze s fname run_id dirs) = Some (Inl e))
         \<and> snd (analyze s fname run_id dirs) = filter (\<lambda>d. d \<noteq> run_id) dirs)
      \<and> (\<forall>e. first_failure (analyze_body s (lower (path_suffix fname))) = Raises e
            \<longrightarrow> fst (analyze s fname run_id dirs) = Some (Inl e))
      \<and> (first_failure (analyze_body s (lower (path_suffix fname))) = Crashes
            \<longrightarrow> fst (analyze s fname run_id dirs)
                  = Some (Inl (HTTPException 500 ''Unexpected server error.'')))
      \<and> (\<forall>e. fst (analyze s fname run_id dirs) = Some (Inl e)
            \<longrightarrow> run_id \<notin> set (snd (analyze s fname run_id dirs)))
      \<and> ((\<forall>x \<in> set (analyze_body s (lower (path_suffix fname))). x = Done) \<longrightarrow>
            fst (analyze s fname run_id dirs) = Some (Inr run_id)
            \<and> run_id \<in> set (snd (analyze s fname run_id dirs)))"
    by (rule handler_spec [OF analyze_created [OF h]])
next
  assume h: "ensure_disk_space s = Done"
  show "((\<exists>x \<in> set (analyze_geojson_body s). x \<noteq> Done) \<longrightarrow>
         (\<exists>e. fst (analyze_geojson s run_id dirs) = Some (Inl e))
         \<and> snd (analyze_geojson s run_id dirs) = filter (\<lambda>d. d \<noteq> run_id) dirs)
      \<and> (\<forall>e. first_failure (analyze_geojson_body s) = Raises e
            \<longrightarrow> fst (analyze_geojson s run_id dirs) = Some (Inl e))
      \<and> (first_failure (analyze_geojson_body s) = Crashes
            \<longrightarrow> fst (analyze_geojson s run_id dirs)
                  = Some (Inl (HTTPException 500 ''Unexpected server error.'')))
      \<and> (\<forall>e. fst (analyze_geojson s run_id dirs) = Some (Inl e)
            \<longrightarrow> run_id \<notin> set (snd (analyze_geojson s run_id dirs)))
      \<and> ((\<forall>x \<in> set (analyze_geojson_body s). x = Done) \<longrightarrow>
            fst (analyze_geojson s run_id dirs) = Some (Inr run_id)
            \<and> run_id \<in> set (snd (analyze_geojson s run_id dirs)))"
    by (rule handler_spec [OF analyze_geojson_created [OF h]])
qed

theorem failed_request_leaves_no_run_dir_witness:
  "analyze
     \<lparr>ensure_disk_space = Done, write_upload = Done, clamscan_upload = Done,
      extract_zip = Done, clamscan_dir = Done, load_vector = Done, geo_limits = Done,
      set_crs = Done, within_coverage = Done, to_file = Done, find_shapefile = Done,
      validate_shapefile = Done, polygon_check = Done,
      analyzer = Raises (HTTPException 429 ''Analyzer is busy. Try again soon.'')\<rparr>
     ''area.zip'' ''r1'' [''r0'']
   = (Some (Inl (HTTPException 429 ''Analyzer is busy. Try again soon.'')), [''r0''])
   \<and> analyze_geojson
     \<lparr>ensure_disk_space = Done, write_upload = Done, clamscan_upload = Done,
      extract_zip = Done, clamscan_dir = Done, load_vector = Done, geo_limits = Done,
      set_crs = Done, within_coverage = Done, to_file = Crashes, find_shapefile = Done,
      validate_shapefile = Done, polygon_check = Done, analyzer = Done\<rparr>
     ''r1'' [''r0'']
   = (Some (Inl (HTTPException 500 ''Unexpected server error.'')), [''r0''])"
proof -
  let ?a = "\<lparr>ensure_disk_space = Done, write_upload = Done, clamscan_upload = Done,
      extract_zip = Done, clamscan_dir = Done, load_vector = Done, geo_limits = Done,
      set_crs = Done, within_coverage = Done, to_file = Done, find_shapefile = Done,
      validate_shapefile = Done, polygon_check = Done,
      analyzer = Raises (HTTPException 429 ''Analyzer is busy. Try again soon.'')\<rparr>"
  let ?g = "\<lparr>ensure_disk_space = Done, write_upload = Done, clamscan_upload = Done,
      extract_zip = Done, clamscan_dir = Done, load_vector = Done, geo_limits = Done,
      set_crs = Done, within_coverage = Done, to_file = Crashes, find_shapefile = Done,
      validate_shapefile = Done, polygon_check = Done, analyzer = Done\<rparr>"
  have d: "ensure_disk_space ?a = Done" "ensure_disk_space ?g = Done"
    by simp_all
  have x: "lower (path_suffix ''area.zip'') \<in> set allowed_ext"
    by code_simp
  have fa: "first_failure (analyze_body ?a (lower (path_suffix ''area.zip'')))
              = Raises (HTTPException 429 ''Analyzer is busy. Try again soon.'')"
    by code_simp
  have fg: "first_failure (analyze_geojson_body ?g) = Crashes"
    by code_simp
  have na: "\<exists>x \<in> set (analyze_body ?a (lower (path_suffix ''area.zip''))). x \<noteq> Done"
    using fa first_failure_Done_iff [of "analyze_body ?a (lower (path_suffix ''area.zip''))"]
    by auto
  have ng: "\<exists>x \<in> set (analyze_geojson_body ?g). x \<noteq> Done"
    using fg first_failure_Done_iff [of "analyze_geojson_body ?g"] by auto
  note A = failed_request_leaves_no_run_dir [of ?a "''area.zip''" "''r1''" "[''r0'']",
      THEN conjunct1, rule_format, OF d(1) x]
  note G = failed_request_leaves_no_run_dir [of ?g "''area.zip''" "''r1''" "[''r0'']",
      THEN conjunct2, rule_format, OF d(2)]
  have 1: "fst (analyze ?a ''area.zip'' ''r1'' [''r0''])
             = Some (Inl (HTTPException 429 ''Analyzer is busy. Try again soon.''))"
    using A fa by blast
  have 2: "snd (analyze ?a ''area.zip'' ''r1'' [''r0'']) = filter (\<lambda>d. d \<noteq> ''r1'') [''r0'']"
    using A na by blast
  have 3: "fst (analyze_geojson ?g ''r1'' [''r0''])
             = Some (Inl (HTTPException 500 ''Unexpected server error.''))"
    using G fg by blast
  have 4: "snd (analyze_geojson ?g ''r1'' [''r0'']) = filter (\<lambda>d. d \<noteq> ''r1'') [''r0'']"
    using G ng by blast
  have 5: "filter (\<lambda>d. d \<noteq> ''r1'') [''r0''] = [''r0'']"
    by simp
  show ?thesis
    using 1 2 3 4 unfolding 5 by (simp add: prod_eq_iff)
qed

subsection \<open>The analysis lock\<close>

lemma held_lock_kept:
  assumes "lock_file st = Some (LockDict d)" and "pid_is_alive env (dict_get d ''pid'')"
  shows "cleanup_lock env t st = Inr st"
proof -
  have "d \<noteq> []"
    using assms(2) by (auto simp: dict_get_def)
  then show ?thesis
    using assms by (simp add: cleanup_lock_def read_lock_def)
qed

lemma held_lock_rejects:
  assumes "lock_file st = Some (LockDict d)" and "pid_is_alive env (dict_get d ''pid'')"
    and "operand env (dict_get d ''ts'') = Some (Inr x)"
    and "float_lt_int env (float_sub env now x) (lock_ttl_seconds env)"
  shows "analysis_lock env now t st
           = (Inl (Http (HTTPException 429 ''Analyzer is busy. Try again soon.'')), st)"
proof -
  have c: "cleanup_lock env t st = Inr st"
    using assms(1,2) by (rule held_lock_kept)
  have f: "fresh env now (dict_get d ''ts'') = Inr True"
    using assms(3,4) by (simp add: fresh_def)
  show ?thesis
    using assms(1) c f by (simp add: analysis_lock_def read_lock_def)
qed

lemma stale_lock_acquired:
  assumes "lock_file st = Some (LockDict d)"
    and "\<not> pid_is_alive env (dict_get d ''pid'')"
    and "operand env (dict_get d ''ts'') = Some (Inr x)"
    and "\<not> float_lt_int env (float_sub env now x) (lock_ttl_seconds env)"
    and "can_write env"
  shows "analysis_lock env now t st
           = (Inr (), st\<lparr>lock_file :=
                Some (LockDict [(''pid'', JInt (own_pid env)), (''ts'', JFloat now)])\<rparr>)"
proof -
  have ne: "d \<noteq> []"
    using assms(3) by (auto simp: dict_get_def)
  have f: "fresh env now (dict_get d ''ts'') = Inr False"
    using assms(3,4) by (simp add: fresh_def)
  have ft: "fresh env t (dict_get d ''ts'')
              = Inr (float_lt_int env (float_sub env t x) (lock_ttl_seconds env))"
    using assms(3) by (simp add: fresh_def)
  have c: "cleanup_lock env t st
             = Inr (if float_lt_int env (float_sub env t x) (lock_ttl_seconds env)
                    then st else try_unlink env st)"
    using assms(1,2) ne ft by (simp add: cleanup_lock_def read_lock_def)
  show ?thesis
  proof (cases "float_lt_int env (float_sub env t x) (lock_ttl_seconds env)")
    case True
    then show ?thesis
      using assms(1,5) c f
      by (cases "can_unlink env") (simp_all add: analysis_lock_def try_unlink_def read_lock_def)
  next
    case False
    then show ?thesis
      using assms(1,5) c f
      by (cases "can_unlink env") (simp_all add: analysis_lock_def try_unlink_def read_lock_def)
  qed
qed

text \<open>
  Claim C1, as amended.  When the lock file records a holder whose pid is alive and
  whose timestamp is less than \<open>LOCK_TTL_SECONDS\<close> old, entering \<open>_analysis_lock\<close>
  raises the 429 rejection and leaves the state as it was: the lock file is not
  rewritten and the analyzer subprocess is not started.  When the recorded holder is
  dead and its timestamp is at least \<open>LOCK_TTL_SECONDS\<close> old, the lock is reclaimed:
  an attempt that can write the lock file writes its own record and starts the
  analyzer subprocess once.  The age of the lock is \<open>now - ts\<close> as the code computes
  it.
\<close>

theorem analysis_lock_cases:
  "(lock_file st = Some (LockDict d) \<longrightarrow> pid_is_alive env (dict_get d ''pid'') \<longrightarrow>
      operand env (dict_get d ''ts'') = Some (Inr x) \<longrightarrow>
      float_lt_int env (float_sub env now x) (lock_ttl_seconds env) \<longrightarrow>
      analysis_lock env now t st
        = (Inl (Http (HTTPException 429 ''Analyzer is busy. Try again soon.'')), st)
      \<and> start_analyzer env now t st
        = (Inl (Http (HTTPException 429 ''Analyzer is busy. Try again soon.'')), st)
      \<and> run_analyzer env now t st
        = (Inl (Http (HTTPException 429 ''Analyzer is busy. Try again soon.'')), st))
   \<and> (lock_file st = Some (LockDict d) \<longrightarrow> \<not> pid_is_alive env (dict_get d ''pid'') \<longrightarrow>
      operand env (dict_get d ''ts'') = Some (Inr x) \<longrightarrow>
      \<not> float_lt_int env (float_sub env now x) (lock_ttl_seconds env) \<longrightarrow>
      can_write env \<longrightarrow>
      analysis_lock env now t st
        = (Inr (), st\<lparr>lock_file :=
             Some (LockDict [(''pid'', JInt (own_pid env)), (''ts'', JFloat now)])\<rparr>)
      \<and> start_analyzer env now t st
        = (Inr (), st\<lparr>lock_file :=
             Some (LockDict [(''pid'', JInt (own_pid env)), (''ts'', JFloat now)]),
             pipeline_runs := Suc (pipeline_runs st), running := Suc (running st)\<rparr>)
      \<and> fst (run_analyzer env now t st) = Inr ()
      \<and> pipeline_runs (snd (run_analyzer env now t st)) = Suc (pipeline_runs st))"
proof (rule conjI; intro impI)
  assume h: "lock_file st = Some (LockDict d)" "pid_is_alive env (dict_get d ''pid'')"
    "operand env (dict_get d ''ts'') = Some (Inr x)"
    "float_lt_int env (float_sub env now x) (lock_ttl_seconds env)"
  have l: "analysis_lock env now t st
        = (Inl (Http (HTTPException 429 ''Analyzer is busy. Try again soon.'')), st)"
    using h by (rule held_lock_rejects)
  have s: "start_analyzer env now t st
        = (Inl (Http (HTTPException 429 ''Analyzer is busy. Try again soon.'')), st)"
    by (simp add: start_analyzer_def l)
  have r: "run_analyzer env now t st
        = (Inl (Http (HTTPException 429 ''Analyzer is busy. Try again soon.'')), st)"
    by (simp add: run_analyzer_def s)
  show "analysis_lock env now t st
        = (Inl (Http (HTTPException 429 ''Analyzer is busy. Try again soon.'')), st)
      \<and> start_analyzer env now t st
        = (Inl (Http (HTTPException 429 ''Analyzer is busy. Try again soon.'')), st)
      \<and> run_analyzer env now t st
        = (Inl (Http (HTTPException 429 ''Analyzer is busy. Try again soon.'')), st)"
    using l s r by simp
next
  assume h: "lock_file st = Some (LockDict d)" "\<not> pid_is_alive env (dict_get d ''pid'')"
    "operand env (dict_get d ''ts'') = Some (Inr x)"
    "\<not> float_lt_int env (float_sub env now x) (lock_ttl_seconds env)"
    "can_write env"
  have l: "analysis_lock env now t st
        = (Inr (), st\<lparr>lock_file :=
             Some (LockDict [(''pid'', JInt (own_pid env)), (''ts'', JFloat now)])\<rparr>)"
    using h by (rule stale_lock_acquired)
  have s: "start_analyzer env now t st
        = (Inr (), st\<lparr>lock_file :=
             Some (LockDict [(''pid'', JInt (own_pid env)), (''ts'', JFloat now)]),
             pipeline_runs := Suc (pipeline_runs st), running := Suc (running st)\<rparr>)"
    by (simp add: start_analyzer_def l)
  have r: "fst (run_analyzer env now t st) = Inr ()
      \<and> pipeline_runs (snd (run_analyzer env now t st)) = Suc (pipeline_runs st)"
    by (simp add: run_analyzer_def s finish_analyzer_def try_unlink_def)
  show "analysis_lock env now t st
        = (Inr (), st\<lparr>lock_file :=
             Some (LockDict [(''pid'', JInt (own_pid env)), (''ts'', JFloat now)])\<rparr>)
      \<and> start_analyzer env now t st
        = (Inr (), st\<lparr>lock_file :=
             Some (LockDict [(''pid'', JInt (own_pid env)), (''ts'', JFloat now)]),
             pipeline_runs := Suc (pipeline_runs st), running := Suc (running st)\<rparr>)
      \<and> fst (run_analyzer env now t st) = Inr ()
      \<and> pipeline_runs (snd (run_analyzer env now t st)) = Suc (pipeline_runs st)"
    using l s r by simp
qed

theorem analysis_lock_cases_witness:
  "run_analyzer
     \<lparr>alive = (\<lambda>p. p = 4711 \<or> p = 4712), own_pid = 4712, lock_ttl_seconds = 14400,
      can_unlink = True, can_write = True,
      float_of_int = (\<lambda>n. Some (real_of_int n)), float_sub = (\<lambda>a b. a - b),
      float_lt_int = (\<lambda>a n. a < real_of_int n)\<rparr> 1000 1001
     \<lparr>lock_file = Some (LockDict [(''pid'', JInt 4711), (''ts'', JFloat 900)]),
      pipeline_runs = 3, running = 1\<rparr>
   = (Inl (Http (HTTPException 429 ''Analyzer is busy. Try again soon.'')),
      \<lparr>lock_file = Some (LockDict [(''pid'', JInt 4711), (''ts'', JFloat 900)]),
       pipeline_runs = 3, running = 1\<rparr>)
   \<and> pipeline_runs (snd (run_analyzer
     \<lparr>alive = (\<lambda>p. p = 4711 \<or> p = 4712), own_pid = 4712, lock_ttl_seconds = 14400,
      can_unlink = True, can_write = True,
      float_of_int = (\<lambda>n. Some (real_of_int n)), float_sub = (\<lambda>a b. a - b),
      float_lt_int = (\<lambda>a n. a < real_of_int n)\<rparr> 20000 20001
     \<lparr>lock_file = Some (LockDict [(''pid'', JInt 99), (''ts'', JInt 900)]),
      pipeline_runs = 3, running = 0\<rparr>)) = 4"
proof -
  let ?env = "\<lparr>alive = (\<lambda>p. p = 4711 \<or> p = 4712), own_pid = 4712, lock_ttl_seconds = 14400,
      can_unlink = True, can_write = True,
      float_of_int = (\<lambda>n. Some (real_of_int n)), float_sub = (\<lambda>a b. a - b),
      float_lt_int = (\<lambda>a n. a < real_of_int n)\<rparr>"
  let ?dh = "[(''pid'', JInt 4711), (''ts'', JFloat (900::real))]"
  let ?ds = "[(''pid'', JInt 99), (''ts'', JInt 900 :: real json)]"
  let ?held = "\<lparr>lock_file = Some (LockDict ?dh), pipeline_runs = 3, running = 1\<rparr>"
  let ?stale = "\<lparr>lock_file = Some (LockDict ?ds), pipeline_runs = 3, running = 0\<rparr>"
  have h: "lock_file ?held = Some (LockDict ?dh)"
    "pid_is_alive ?env (dict_get ?dh ''pid'')"
    "operand ?env (dict_get ?dh ''ts'') = Some (Inr 900)"
    "float_lt_int ?env (float_sub ?env 1000 900) (lock_ttl_seconds ?env)"
    by (simp_all add: dict_get_def)
  have s: "lock_file ?stale = Some (LockDict ?ds)"
    "\<not> pid_is_alive ?env (dict_get ?ds ''pid'')"
    "operand ?env (dict_get ?ds ''ts'') = Some (Inr 900)"
    "\<not> float_lt_int ?env (float_sub ?env 20000 900) (lock_ttl_seconds ?env)"
    "can_write ?env"
    by (simp_all add: dict_get_def)
  from analysis_lock_cases [of ?held ?dh ?env 900 1000 1001, THEN conjunct1, rule_format, OF h]
  have 1: "run_analyzer ?env 1000 1001 ?held
             = (Inl (Http (HTTPException 429 ''Analyzer is busy. Try again soon.'')), ?held)"
    by simp
  from analysis_lock_cases [of ?stale ?ds ?env 900 20000 20001, THEN conjunct2, rule_format, OF s]
  have 2: "pipeline_runs (snd (run_analyzer ?env 20000 20001 ?stale)) = 4"
    by simp
  show ?thesis
    using 1 2 by simp
qed

text \<open>
  Two server processes, 4711 and 4712, both alive, with a time-to-live of 600
  seconds.  Process 4711 takes the lock at second 0 and its analyzer is still
  executing at second 700, when process 4712 enters: the lock is taken over and a
  second analyzer is started, so that two executions are under way at once.
\<close>

theorem analysis_lock_counterexample:
  "start_analyzer
     \<lparr>alive = (\<lambda>p. p = 4711 \<or> p = 4712), own_pid = 4711, lock_ttl_seconds = 600,
      can_unlink = True, can_write = True,
      float_of_int = (\<lambda>n. Some (real_of_int n)), float_sub = (\<lambda>a b. a - b),
      float_lt_int = (\<lambda>a n. a < real_of_int n)\<rparr> 0 0
     \<lparr>lock_file = None, pipeline_runs = 0, running = 0\<rparr>
   = (Inr (), \<lparr>lock_file = Some (LockDict [(''pid'', JInt 4711), (''ts'', JFloat 0)]),
               pipeline_runs = 1, running = 1\<rparr>)
   \<and> start_analyzer
     \<lparr>alive = (\<lambda>p. p = 4711 \<or> p = 4712), own_pid = 4712, lock_ttl_seconds = 600,
      can_unlink = True, can_write = True,
      float_of_int = (\<lambda>n. Some (real_of_int n)), float_sub = (\<lambda>a b. a - b),
      float_lt_int = (\<lambda>a n. a < real_of_int n)\<rparr> 700 700
     \<lparr>lock_file = Some (LockDict [(''pid'', JInt 4711), (''ts'', JFloat 0)]),
      pipeline_runs = 1, running = 1\<rparr>
   = (Inr (), \<lparr>lock_file = Some (LockDict [(''pid'', JInt 4712), (''ts'', JFloat 700)]),
               pipeline_runs = 2, running = 2\<rparr>)"
  by (simp add: start_analyzer_def analysis_lock_def cleanup_lock_def read_lock_def
      fresh_def dict_get_def try_unlink_def)

end
